theory Spec2Isabelle
  imports Complex_Main
begin

section \<open>Python values, exceptions and the observable actions of \<open>utils/process.py\<close>\<close>

text \<open>
  The exceptions that the code of \<open>utils/process.py\<close> raises, catches or lets through.
  \<open>KeyboardInterrupt\<close> and \<open>SystemExit\<close> derive from \<open>BaseException\<close> only; every other
  one is a subclass of \<open>Exception\<close>.  \<open>FuturesTimeoutError\<close> is
  \<open>concurrent.futures.TimeoutError\<close> and \<open>ProcessExpired\<close> is \<open>pebble.ProcessExpired\<close>.
\<close>

datatype exit_arg = ExitNone | ExitInt int | ExitStr string

datatype exn =
    KeyboardInterrupt
  | SystemExit exit_arg
  | MemoryError
  | PermissionError
  | OSError
  | IndexError
  | ValueError
  | KeyError
  | AttributeError
  | UnboundLocalError
  | FuturesTimeoutError
  | ProcessExpired
  | ESRequestError
  | OtherException string

fun is_Exception :: "exn \<Rightarrow> bool" where
  "is_Exception KeyboardInterrupt = False"
| "is_Exception (SystemExit a) = False"
| "is_Exception e = True"

datatype pyval =
    PNone
  | PBool bool
  | PInt int
  | PStr string
  | PList "pyval list"
  | PDict "(string \<times> pyval) list"

text \<open>Python truthiness of a value (\<open>if v:\<close>, \<open>v or w\<close>, \<open>not v\<close>).\<close>

fun truthy :: "pyval \<Rightarrow> bool" where
  "truthy PNone = False"
| "truthy (PBool b) = b"
| "truthy (PInt n) = (n \<noteq> 0)"
| "truthy (PStr s) = (s \<noteq> [])"
| "truthy (PList xs) = (xs \<noteq> [])"
| "truthy (PDict kvs) = (kvs \<noteq> [])"

subsection \<open>Strings: \<open>str.split()\<close>, \<open>int(s)\<close>, \<open>str(n)\<close>, \<open>os.path.join\<close>\<close>

text \<open>
  \<open>str.split()\<close> without arguments cuts at runs of whitespace and drops empty pieces.
  The whitespace characters are the ASCII ones of Python's \<open>str.isspace\<close>
  (codes 9 to 13, 28 to 31 and 32).
\<close>

definition is_space :: "char \<Rightarrow> bool" where
  "is_space c = (let n = (of_char c :: nat) in (9 \<le> n \<and> n \<le> 13) \<or> (28 \<le> n \<and> n \<le> 32))"

fun split_acc :: "string \<Rightarrow> string \<Rightarrow> string list" where
  "split_acc [] cur = (if cur = [] then [] else [cur])"
| "split_acc (c # cs) cur =
     (if is_space c then (if cur = [] then split_acc cs [] else cur # split_acc cs [])
      else split_acc cs (cur @ [c]))"

definition split_ws :: "string \<Rightarrow> string list" where
  "split_ws s = split_acc s []"

text \<open>
  \<open>int(s)\<close> on a token that holds no whitespace: an optional sign, then decimal digits
  that single underscores may separate.  Anything else is a \<open>ValueError\<close> (\<open>None\<close> here).
\<close>

definition is_digit :: "char \<Rightarrow> bool" where
  "is_digit c = (let n = (of_char c :: nat) in 48 \<le> n \<and> n \<le> 57)"

definition digit_val :: "char \<Rightarrow> int" where
  "digit_val c = int (of_char c) - 48"

fun digits_ok :: "string \<Rightarrow> bool" where
  "digits_ok [] = False"
| "digits_ok [c] = is_digit c"
| "digits_ok (c # d # cs) =
     (if is_digit c then (if d = CHR ''_'' then digits_ok cs else digits_ok (d # cs)) else False)"

fun digits_value :: "int \<Rightarrow> string \<Rightarrow> int" where
  "digits_value acc [] = acc"
| "digits_value acc (c # cs) =
     (if c = CHR ''_'' then digits_value acc cs else digits_value (10 * acc + digit_val c) cs)"

definition py_int :: "string \<Rightarrow> int option" where
  "py_int s =
     (case s of
        [] \<Rightarrow> None
      | c # cs \<Rightarrow>
          if c = CHR ''-'' then (if digits_ok cs then Some (- digits_value 0 cs) else None)
          else if c = CHR ''+'' then (if digits_ok cs then Some (digits_value 0 cs) else None)
          else (if digits_ok s then Some (digits_value 0 s) else None))"

text \<open>\<open>str(n)\<close> of an integer: its decimal digits, with a minus sign when negative.\<close>

fun str_nat :: "nat \<Rightarrow> string" where
  "str_nat n = (if n < 10 then [char_of (48 + n)] else str_nat (n div 10) @ [char_of (48 + n mod 10)])"

definition str_int :: "int \<Rightarrow> string" where
  "str_int i = (if i < 0 then CHR ''-'' # str_nat (nat (- i)) else str_nat (nat i))"

text \<open>
  \<open>os.path.join\<close> of \<open>posixpath\<close>: a component that starts with a slash discards what
  came before it; otherwise it is appended, after a slash unless the path so far is
  empty or already ends with one.
\<close>

definition join2 :: "string \<Rightarrow> string \<Rightarrow> string" where
  "join2 a b =
     (if b \<noteq> [] \<and> hd b = CHR ''/'' then b
      else if a = [] \<or> last a = CHR ''/'' then a @ b
      else a @ ''/'' @ b)"

definition path_join :: "string \<Rightarrow> string list \<Rightarrow> string" where
  "path_join a ps = foldl join2 a ps"

subsection \<open>Job states, tasks, samples and configuration\<close>

text \<open>
  The three task states that the file imports from \<open>lib.cuckoo.core.database\<close>, and the
  attributes of a \<open>Task\<close> and of a \<open>Sample\<close> row that the file reads (\<open>tid\<close> is
  the attribute \<open>id\<close>).  \<open>to_dict\<close> is
  what the task's \<open>to_dict()\<close> method returns.
\<close>

datatype status = TASK_COMPLETED | TASK_FAILED_PROCESSING | TASK_REPORTED

record task =
  tid :: int
  category :: string
  target :: string
  sample_id :: int
  to_dict :: pyval

record sample =
  sha256 :: string

text \<open>
  The configuration values read through \<open>cfg\<close> (\<open>cuckoo.conf\<close>), the constant
  \<open>CUCKOO_ROOT\<close>, and the two switches of \<open>repconf\<close> (\<open>reporting.conf\<close>) that
  \<open>_load_report\<close> looks at.
\<close>

record config =
  cuckoo_root :: string
  max_analysis_count :: int
  freespace :: int
  delete_original :: bool
  delete_bin_copy :: bool
  log_rotation_enabled :: bool
  mongodb_enabled :: bool
  elasticsearchdb_enabled :: bool
  elasticsearchdb_searchonly :: bool

subsection \<open>Observable actions\<close>

text \<open>
  Every call that leaves the file (the job store, the worker pool, the file system, the
  plugins, logging, the console, \<open>time.sleep\<close>) is recorded, in program order, as an
  event of the trace.  A log call keeps its format string and, of its arguments, the task
  id and the free space; the object counts of the garbage collector are left out and an
  exception object is written \<open>PStr ''error''\<close>.
\<close>

datatype event =
    Print string
  | PrintRemain int
  | StderrWrite string
  | TracebackPrint exn
  | LogInfo string "pyval list"
  | LogError string "pyval list"
  | GcCollect
  | Sleep nat
  | FreeSpaceMonitor string
  | ListTasks status int
  | ViewSample int
  | PoolCreate int int
  | Schedule nat int string "string option" bool int
  | AddDoneCallback nat
  | PoolClose
  | PoolJoin
  | SetStatus pyval status
  | Unlink string
  | Makedirs string
  | RunProcessing pyval pyval
  | RunSignatures pyval pyval
  | RunReporting pyval pyval bool
  | SetRlimitAs int int
  | InitYara
  | InitModules
  | AddConsoleHandler
  | AddFileHandler string bool
  | SetLogLevel bool
  | RunSignaturesNamed pyval pyval pyval

text \<open>
  The part of the world that both the scheduler process and a worker see: the files that
  exist, the host's platform name, the lines of \<open>/proc/meminfo\<close> (\<open>None\<close> when the file
  cannot be opened), the address-space limit of the process as the pair (soft, hard) with
  \<open>-1\<close> for \<open>RLIM_INFINITY\<close>, and the trace so far.
\<close>

record world =
  fs :: "string set"
  platform_system :: string
  meminfo :: "string list option"
  rlimit_as :: "int \<times> int"
  trace :: "event list"

definition emit :: "event \<Rightarrow> 'a world_scheme \<Rightarrow> 'a world_scheme" where
  "emit e w = w\<lparr>trace := trace w @ [e]\<rparr>"

definition emits :: "event list \<Rightarrow> 'a world_scheme \<Rightarrow> 'a world_scheme" where
  "emits es w = w\<lparr>trace := trace w @ es\<rparr>"

section \<open>\<open>get_memory\<close> and \<open>memory_limit\<close>\<close>

text \<open>
  \<open>get_memory\<close> walks the lines of \<open>/proc/meminfo\<close>.  \<open>sline[0]\<close> on a line without a
  token and \<open>sline[1]\<close> on a line with one token raise \<open>IndexError\<close>; \<open>int\<close> of a token
  that is no number raises \<open>ValueError\<close>.  When no line starts with \<open>MemAvailable:\<close> the
  loop ends and the initial value \<open>0\<close> of \<open>free_memory\<close> is returned.
\<close>

fun get_memory_lines :: "string list \<Rightarrow> exn + int" where
  "get_memory_lines [] = Inr 0"
| "get_memory_lines (i # rest) =
     (case split_ws i of
        [] \<Rightarrow> Inl IndexError
      | s0 # sline \<Rightarrow>
          if s0 = ''MemAvailable:'' then
            (case sline of
               [] \<Rightarrow> Inl IndexError
             | s1 # _ \<Rightarrow> (case py_int s1 of None \<Rightarrow> Inl ValueError | Some n \<Rightarrow> Inr n))
          else get_memory_lines rest)"

definition get_memory :: "'a world_scheme \<Rightarrow> exn + int" where
  "get_memory w = (case meminfo w of None \<Rightarrow> Inl OSError | Some ls \<Rightarrow> get_memory_lines ls)"

text \<open>\<open>int(x)\<close> of a number: truncation towards zero.\<close>

definition py_trunc :: "rat \<Rightarrow> int" where
  "py_trunc x = (if 0 \<le> x then \<lfloor>x\<rfloor> else \<lceil>x\<rceil>)"

text \<open>
  \<open>resource.setrlimit(RLIMIT_AS, (soft, hard))\<close> with the hard limit left as it is: the
  kernel refuses a soft limit above a finite hard limit (\<open>ValueError\<close>).
\<close>

definition setrlimit_as :: "int \<Rightarrow> int \<Rightarrow> 'a world_scheme \<Rightarrow> exn option \<times> 'a world_scheme" where
  "setrlimit_as soft hard w =
     (if hard = -1 \<or> (0 \<le> soft \<and> soft \<le> hard)
      then (None, emit (SetRlimitAs soft hard) (w\<lparr>rlimit_as := (soft, hard)\<rparr>))
      else (Some ValueError, w))"

text \<open>
  \<open>memory_limit(percentage)\<close>.  The fraction is a rational number here (the source has the
  float \<open>0.8\<close>; the rounding of the float product is not modelled).
\<close>

definition memory_limit :: "rat \<Rightarrow> 'a world_scheme \<Rightarrow> exn option \<times> 'a world_scheme" where
  "memory_limit percentage w =
     (if platform_system w \<noteq> ''Linux'' then (None, emit (Print ''Only works on linux!'') w)
      else
        let hard = snd (rlimit_as w) in
        case get_memory w of
          Inl e \<Rightarrow> (Some e, w)
        | Inr m \<Rightarrow> setrlimit_as (py_trunc (of_int (m * 1024) * percentage)) hard w)"

section \<open>The scheduler's state and \<open>processing_finished\<close>\<close>

text \<open>
  The two module-level dictionaries \<open>pending_future_map\<close> (future to task id) and
  \<open>pending_task_id_map\<close> (task id to future), the local counter \<open>count\<close> of
  \<open>autoprocess\<close>, and the supply of future objects of the pool: \<open>pool.schedule\<close> returns
  a new object each time, here the next natural number.
\<close>

record sched = world +
  pending_future_map :: "nat \<rightharpoonup> int"
  pending_task_id_map :: "int \<rightharpoonup> nat"
  count :: int
  next_future :: nat

definition init_sched :: "world \<Rightarrow> sched" where
  "init_sched w =
     world.extend w
       \<lparr>pending_future_map = Map.empty, pending_task_id_map = Map.empty, count = 0, next_future = 0\<rparr>"

text \<open>\<open>task_id\<close> as the value that \<open>pending_future_map.get(future)\<close> returns.\<close>

definition got :: "int option \<Rightarrow> pyval" where
  "got v = (case v of None \<Rightarrow> PNone | Some t \<Rightarrow> PInt t)"

text \<open>
  \<open>processing_finished(future)\<close>, the done-callback.  \<open>res\<close> is what \<open>future.result()\<close>
  does (\<open>Inr\<close> the result, \<open>Inl\<close> the exception it raises) and \<open>dbr\<close> what
  \<open>Database().set_status\<close> does when it is called (\<open>Some\<close> the exception it raises).
  \<open>del d[k]\<close> on a missing key raises \<open>KeyError\<close>.
\<close>

definition mark_failed ::
  "string \<Rightarrow> pyval list \<Rightarrow> int option \<Rightarrow> exn option \<Rightarrow> sched \<Rightarrow> exn option \<times> sched" where
  "mark_failed fmt args task_id dbr s =
     (dbr, emits [LogError fmt args, SetStatus (got task_id) TASK_FAILED_PROCESSING] s)"

definition future_result ::
  "int option \<Rightarrow> exn + pyval \<Rightarrow> exn option \<Rightarrow> sched \<Rightarrow> exn option \<times> sched" where
  "future_result task_id res dbr s =
     (case res of
        Inr result \<Rightarrow>
          (None, emit (LogInfo ''Task #%d: reports generation completed'' [got task_id]) s)
      | Inl error \<Rightarrow>
          if error = FuturesTimeoutError then
            mark_failed ''Processing Timeout %s - Task ID: %d'' [PStr ''error'', got task_id] task_id dbr s
          else if error = ProcessExpired then
            mark_failed ''Exception when processing task %s: %s'' [got task_id, PStr ''error''] task_id dbr s
          else if is_Exception error then
            mark_failed ''Exception when processing task %s: %s'' [got task_id, PStr ''error''] task_id dbr s
          else (Some error, s))"

definition del_entries :: "nat \<Rightarrow> int option \<Rightarrow> sched \<Rightarrow> exn option \<times> sched" where
  "del_entries future task_id s =
     (case pending_future_map s future of
        None \<Rightarrow> (Some KeyError, s)
      | Some _ \<Rightarrow>
          let s1 = s\<lparr>pending_future_map := (pending_future_map s)(future := None)\<rparr> in
          (case task_id of
             None \<Rightarrow> (Some KeyError, s1)
           | Some t \<Rightarrow>
               (case pending_task_id_map s1 t of
                  None \<Rightarrow> (Some KeyError, s1)
                | Some _ \<Rightarrow>
                    (None, s1\<lparr>pending_task_id_map := (pending_task_id_map s1)(t := None)\<rparr>))))"

definition processing_finished ::
  "nat \<Rightarrow> exn + pyval \<Rightarrow> exn option \<Rightarrow> sched \<Rightarrow> exn option \<times> sched" where
  "processing_finished future res dbr s =
     (let task_id = pending_future_map s future in
      case future_result task_id res dbr s of
        (Some e, s1) \<Rightarrow> (Some e, s1)
      | (None, s1) \<Rightarrow> del_entries future task_id s1)"

section \<open>The scheduling loop of \<open>autoprocess\<close>\<close>

record args =
  parallel :: int
  failed_processing :: bool
  maxtasksperchild :: int
  memory_debugging :: bool
  processing_timeout :: int

text \<open>
  What the outside world answers during one pass of the \<open>while\<close> loop:
  \<open>free_space_monitor\<close> (the pair \<open>need_space, space_available\<close>), \<open>time.sleep\<close>,
  \<open>db.list_tasks\<close>, \<open>db.view_sample\<close> and \<open>pool.schedule\<close>.  \<open>Inl\<close> and \<open>Some\<close> carry the
  exception that the call raises.
\<close>

record iter_env =
  space_answer :: "exn + (bool \<times> int)"
  sleep_answer :: "exn option"
  tasks_answer :: "exn + task list"
  sample_answer :: "exn + sample option"
  schedule_answer :: "exn option"

definition copy_path_of :: "config \<Rightarrow> task \<Rightarrow> sample \<Rightarrow> string" where
  "copy_path_of cfg t smp =
     path_join (cuckoo_root cfg) [''storage'', ''binaries'', str_int (tid t), sha256 smp]"

definition copy_origin_path_of :: "config \<Rightarrow> sample \<Rightarrow> string" where
  "copy_origin_path_of cfg smp = path_join (cuckoo_root cfg) [''storage'', ''binaries'', sha256 smp]"

definition gc_log :: "bool \<Rightarrow> string \<Rightarrow> pyval \<Rightarrow> 'a world_scheme \<Rightarrow> 'a world_scheme" where
  "gc_log dbg fmt i w = (if dbg then emits [GcCollect, LogInfo fmt [i]] w else w)"

text \<open>
  Lines 230 to 249: the job is handed to the pool, the two dictionaries and \<open>count\<close> are
  updated, and the origin copy \<open>storage/binaries/<sha256>\<close> is unlinked when there is a
  \<open>copy_path\<close>, \<open>delete_bin_copy\<close> is set and the file exists.  \<open>cp\<close> is \<open>None\<close> for a URL
  task, and the sample with its \<open>copy_path\<close> otherwise.
\<close>

definition unlink_origin :: "config \<Rightarrow> (sample \<times> string) option \<Rightarrow> sched \<Rightarrow> sched" where
  "unlink_origin cfg cp s =
     (case cp of
        None \<Rightarrow> s
      | Some (smp, copy_path) \<Rightarrow>
          let copy_origin_path = copy_origin_path_of cfg smp in
          if delete_bin_copy cfg \<and> copy_origin_path \<in> fs s
          then emit (Unlink copy_origin_path) (s\<lparr>fs := fs s - {copy_origin_path}\<rparr>)
          else s)"

definition submit ::
  "config \<Rightarrow> args \<Rightarrow> iter_env \<Rightarrow> task \<Rightarrow> (sample \<times> string) option \<Rightarrow> sched \<Rightarrow> exn option \<times> sched" where
  "submit cfg a env t cp s =
     (let s1 = gc_log (memory_debugging a) ''[%d] (before) GC object counts: %d, %d'' (PInt (tid t)) s in
      case schedule_answer env of
        Some e \<Rightarrow> (Some e, s1)
      | None \<Rightarrow>
          let future = next_future s1;
              s2 = emit (Schedule future (tid t) (target t) (map_option snd cp)
                          (memory_debugging a) (processing_timeout a))
                     (s1\<lparr>next_future := Suc future\<rparr>);
              s3 = s2\<lparr>pending_future_map := (pending_future_map s2)(future \<mapsto> tid t)\<rparr>;
              s4 = s3\<lparr>pending_task_id_map := (pending_task_id_map s3)(tid t \<mapsto> future)\<rparr>;
              s5 = emit (AddDoneCallback future) s4;
              s6 = gc_log (memory_debugging a) ''[%d] (after) GC object counts: %d, %d'' (PInt (tid t)) s5;
              s7 = s6\<lparr>count := count s6 + 1\<rparr>
          in (None, unlink_origin cfg cp s7))"

text \<open>
  Lines 224 to 229: for a task that is no URL the sample is fetched; \<open>sample.sha256\<close> on
  \<open>None\<close> raises \<open>AttributeError\<close>.
\<close>

definition dispatch :: "config \<Rightarrow> args \<Rightarrow> iter_env \<Rightarrow> task \<Rightarrow> sched \<Rightarrow> exn option \<times> sched" where
  "dispatch cfg a env t s =
     (let s1 = emit (LogInfo ''Processing analysis data for Task #%d'' [PInt (tid t)]) s in
      if category t \<noteq> ''url'' then
        (let s2 = emit (ViewSample (sample_id t)) s1 in
         case sample_answer env of
           Inl e \<Rightarrow> (Some e, s2)
         | Inr None \<Rightarrow> (Some AttributeError, s2)
         | Inr (Some smp) \<Rightarrow> submit cfg a env t (Some (smp, copy_path_of cfg t smp)) s2)
      else submit cfg a env t None s1)"

text \<open>
  The test \<open>if pending_task_id_map.get(task.id)\<close>: a future object defines neither
  \<open>__bool__\<close> nor \<open>__len__\<close>, so it is true exactly when the key is present.
\<close>

definition future_truthy :: "nat \<Rightarrow> bool" where
  "future_truthy f = True"

definition pending :: "sched \<Rightarrow> int \<Rightarrow> bool" where
  "pending s i = (case pending_task_id_map s i of None \<Rightarrow> False | Some f \<Rightarrow> future_truthy f)"

text \<open>The \<open>for task in tasks\<close> loop; the second component is \<open>added\<close>.\<close>

fun for_tasks ::
  "config \<Rightarrow> args \<Rightarrow> iter_env \<Rightarrow> task list \<Rightarrow> sched \<Rightarrow> exn option \<times> bool \<times> sched" where
  "for_tasks cfg a env [] s = (None, False, s)"
| "for_tasks cfg a env (t # ts) s =
     (if pending s (tid t) then for_tasks cfg a env ts s
      else (case dispatch cfg a env t s of (r, s') \<Rightarrow> (r, True, s')))"

text \<open>Lines 210 to 252: the concurrency test, the query and the dispatch of one task.\<close>

definition poll :: "config \<Rightarrow> args \<Rightarrow> iter_env \<Rightarrow> sched \<Rightarrow> exn option \<times> sched" where
  "poll cfg a env s =
     (if int (card (dom (pending_task_id_map s))) \<ge> parallel a then
        (sleep_answer env, emit (Sleep 5) s)
      else
        let st = (if failed_processing a then TASK_FAILED_PROCESSING else TASK_COMPLETED);
            s1 = emit (ListTasks st (parallel a)) s in
        case tasks_answer env of
          Inl e \<Rightarrow> (Some e, s1)
        | Inr tasks \<Rightarrow>
            (case for_tasks cfg a env tasks s1 of
               (Some e, added, s2) \<Rightarrow> (Some e, s2)
             | (None, added, s2) \<Rightarrow>
                 if \<not> added then (sleep_answer env, emit (Sleep 5) s2) else (None, s2)))"

text \<open>
  One pass of the loop body (lines 197 to 252).  The result is \<open>None\<close> when the pass ends
  (by \<open>continue\<close> or at its end) and the exception when one escapes.
\<close>

definition iteration :: "config \<Rightarrow> args \<Rightarrow> iter_env \<Rightarrow> sched \<Rightarrow> exn option \<times> sched" where
  "iteration cfg a env s =
     (if freespace cfg \<noteq> 0 then
        let dir_path = path_join (cuckoo_root cfg) [''storage'', ''analyses''];
            s1 = emit (FreeSpaceMonitor dir_path) s in
        case space_answer env of
          Inl e \<Rightarrow> (Some e, s1)
        | Inr (need_space, space_available) \<Rightarrow>
            if need_space then
              (sleep_answer env,
               emits [LogError ''Not enough free disk space! (Only %d MB!). You can change limits it in cuckoo.conf -> freespace''
                        [PInt space_available],
                      Sleep 60] s1)
            else poll cfg a env s1
      else poll cfg a env s)"

text \<open>
  The loop \<open>while count < maxcount or not maxcount\<close>, run against a script of what
  happens: a pass of the loop with the world's answers, or the resolution of a future,
  whose done-callback runs between two passes (an exception of the callback does not
  reach the loop).  The loop may run forever; it is followed as far as the script goes.
\<close>

datatype step = Iteration iter_env | Completion nat "exn + pyval" "exn option"

datatype loop_end = LoopDone | LoopRaised exn | OutOfScript

definition loop_cond :: "int \<Rightarrow> int \<Rightarrow> bool" where
  "loop_cond cnt maxcount = (cnt < maxcount \<or> maxcount = 0)"

fun while_loop :: "config \<Rightarrow> args \<Rightarrow> step list \<Rightarrow> sched \<Rightarrow> loop_end \<times> step list \<times> sched" where
  "while_loop cfg a [] s =
     (if loop_cond (count s) (max_analysis_count cfg) then (OutOfScript, [], s) else (LoopDone, [], s))"
| "while_loop cfg a (Completion f res dbr # rest) s =
     (if loop_cond (count s) (max_analysis_count cfg)
      then while_loop cfg a rest (snd (processing_finished f res dbr s))
      else (LoopDone, Completion f res dbr # rest, s))"
| "while_loop cfg a (Iteration env # rest) s =
     (if loop_cond (count s) (max_analysis_count cfg) then
        (case iteration cfg a env s of
           (Some e, s') \<Rightarrow> (LoopRaised e, rest, s')
         | (None, s') \<Rightarrow> while_loop cfg a rest s')
      else (LoopDone, Iteration env # rest, s))"

section \<open>\<open>autoprocess\<close>: set-up, exception handlers and the \<open>finally\<close> block\<close>

datatype result = Returned | Raised exn | StillRunning

text \<open>
  Leaving the \<open>with\<close> block closes and joins the pool; while the pool is joined the
  futures still in flight resolve, so the completions left in the script run.
\<close>

fun drain :: "step list \<Rightarrow> sched \<Rightarrow> sched" where
  "drain [] s = s"
| "drain (Completion f res dbr # rest) s = drain rest (snd (processing_finished f res dbr s))"
| "drain (Iteration env # rest) s = drain rest s"

definition pool_exit :: "step list \<Rightarrow> sched \<Rightarrow> sched" where
  "pool_exit rest s = drain rest (emits [PoolClose, PoolJoin] s)"

text \<open>
  The \<open>finally\<close> block calls \<open>pool.close()\<close> and \<open>pool.join()\<close>.  The name \<open>pool\<close> is bound
  by the \<open>with\<close> statement inside the \<open>try\<close>: when the \<open>try\<close> was left before that,
  reading \<open>pool\<close> raises \<open>UnboundLocalError\<close>, which replaces whatever was on its way out.
\<close>

definition finally_block :: "bool \<Rightarrow> result \<Rightarrow> sched \<Rightarrow> result \<times> sched" where
  "finally_block pool_bound r s =
     (if pool_bound then (r, emits [PoolClose, PoolJoin] s) else (Raised UnboundLocalError, s))"

text \<open>The \<open>except\<close> clauses of lines 253 to 265, each followed by the \<open>finally\<close> block.\<close>

definition handlers :: "bool \<Rightarrow> exn \<Rightarrow> sched \<Rightarrow> result \<times> sched" where
  "handlers pool_bound e s =
     (if e = KeyboardInterrupt then finally_block pool_bound (Raised KeyboardInterrupt) s
      else if e = MemoryError then
        (case get_memory s of
           Inl e2 \<Rightarrow> finally_block pool_bound (Raised e2) s
         | Inr mem \<Rightarrow>
             finally_block pool_bound (Raised (SystemExit (ExitInt 1)))
               (emits [PrintRemain mem,
                       StderrWrite ([CHR 0x0A, CHR 0x0A] @ ''ERROR: Memory Exception'' @ [CHR 0x0A])] s))
      else if is_Exception e then finally_block pool_bound Returned (emit (TracebackPrint e) s)
      else finally_block pool_bound (Raised e) s)"

text \<open>
  \<open>autoprocess\<close>.  \<open>pool_answer\<close> is what the constructor of \<open>pebble.ProcessPool\<close> does
  (\<open>Some\<close> the exception it raises).  \<open>PrintRemain mem\<close> stands for the line
  \<open>Remain: %.2f GB\<close> printed from \<open>mem / 1024 / 1024\<close>.
\<close>

definition autoprocess ::
  "config \<Rightarrow> args \<Rightarrow> exn option \<Rightarrow> step list \<Rightarrow> sched \<Rightarrow> result \<times> sched" where
  "autoprocess cfg a pool_answer script s0 =
     (let s = s0\<lparr>count := 0\<rparr> in
      case memory_limit (4 / 5) s of
        (Some e, s1) \<Rightarrow> handlers False e s1
      | (None, s1) \<Rightarrow>
          let s2 = emit (LogInfo ''Processing analysis data'' []) s1 in
          (case pool_answer of
             Some e \<Rightarrow> handlers False e s2
           | None \<Rightarrow>
               (case while_loop cfg a script (emit (PoolCreate (parallel a) (maxtasksperchild a)) s2) of
                  (OutOfScript, rest, s3) \<Rightarrow> (StillRunning, s3)
                | (LoopDone, rest, s3) \<Rightarrow> finally_block True Returned (pool_exit rest s3)
                | (LoopRaised e, rest, s3) \<Rightarrow> handlers True e (pool_exit rest s3))))"

section \<open>\<open>process\<close>: the pipeline run for one job\<close>

text \<open>
  The collaborators that the file calls and that are not part of it: the \<open>run\<close> methods of
  \<open>RunProcessing\<close>, \<open>RunSignatures\<close> and \<open>RunReporting\<close>, given the task dictionary and
  the results container and returning the container as they leave it (or the exception
  they raise); \<open>RunSignatures.run\<close> with a signature name; what \<open>set_status\<close> raises, if
  anything; and \<open>red\<close> of \<open>lib.cuckoo.common.colors\<close>.
\<close>

record collab =
  run_processing :: "pyval \<Rightarrow> pyval \<Rightarrow> exn + pyval"
  run_signatures :: "pyval \<Rightarrow> pyval \<Rightarrow> exn + pyval"
  run_signatures_named :: "pyval \<Rightarrow> pyval \<Rightarrow> pyval \<Rightarrow> exn + pyval"
  run_reporting :: "pyval \<Rightarrow> pyval \<Rightarrow> bool \<Rightarrow> exn + pyval"
  set_status_answer :: "exn option"
  red :: "string \<Rightarrow> string"

definition py_or :: "pyval \<Rightarrow> pyval \<Rightarrow> pyval" where
  "py_or v w = (if truthy v then v else w)"

text \<open>\<open>d.get(k)\<close>: \<open>None\<close> for a missing key; a value that is no dictionary has no \<open>get\<close>.\<close>

definition dict_get :: "pyval \<Rightarrow> string \<Rightarrow> exn + pyval" where
  "dict_get d k =
     (case d of
        PDict kvs \<Rightarrow> Inr (case map_of kvs k of None \<Rightarrow> PNone | Some v \<Rightarrow> v)
      | _ \<Rightarrow> Inl AttributeError)"

definition seed_results :: pyval where
  "seed_results =
     PDict [(''statistics'',
             PDict [(''processing'', PList []), (''signatures'', PList []), (''reporting'', PList [])])]"

definition unlink_if_exists :: "string \<Rightarrow> 'a world_scheme \<Rightarrow> 'a world_scheme" where
  "unlink_if_exists p w = (if p \<in> fs w then emit (Unlink p) (w\<lparr>fs := fs w - {p}\<rparr>) else w)"

text \<open>
  Lines 112 to 117.  \<open>os.path.exists(None)\<close> raises \<open>TypeError\<close>; it is reached only when
  \<open>delete_original\<close> is set and no target was passed.
\<close>

definition cleanup ::
  "config \<Rightarrow> string option \<Rightarrow> string option \<Rightarrow> 'a world_scheme \<Rightarrow> exn option \<times> 'a world_scheme" where
  "cleanup cfg tgt copy_path w =
     (case (if delete_original cfg
            then (case tgt of None \<Rightarrow> Inl (OtherException ''TypeError'') | Some p \<Rightarrow> Inr (unlink_if_exists p w))
            else Inr w) of
        Inl e \<Rightarrow> (Some e, w)
      | Inr w1 \<Rightarrow>
          (None,
           case copy_path of
             None \<Rightarrow> w1
           | Some cp \<Rightarrow> if delete_bin_copy cfg then unlink_if_exists cp w1 else w1))"

text \<open>Lines 103 to 117: the reporting stage, the write of \<open>TASK_REPORTED\<close> and the clean-up.\<close>

definition report_stage ::
  "collab \<Rightarrow> config \<Rightarrow> string option \<Rightarrow> string option \<Rightarrow> task \<Rightarrow> pyval \<Rightarrow> pyval \<Rightarrow>
   bool \<Rightarrow> bool \<Rightarrow> bool \<Rightarrow> 'a world_scheme \<Rightarrow> exn option \<times> 'a world_scheme" where
  "report_stage pl cfg tgt copy_path t task_id results rep auto capeproc w =
     (let reprocess = (if auto \<or> capeproc then False else rep);
          w1 = emit (RunReporting (to_dict t) results reprocess) w in
      case run_reporting pl (to_dict t) results reprocess of
        Inl e \<Rightarrow> (Some e, w1)
      | Inr results3 \<Rightarrow>
          let w2 = emit (SetStatus task_id TASK_REPORTED) w1 in
          (case set_status_answer pl of
             Some e \<Rightarrow> (Some e, w2)
           | None \<Rightarrow> if auto then cleanup cfg tgt copy_path w2 else (None, w2)))"

text \<open>
  \<open>process(target, copy_path, task, report, auto, capeproc, memory_debugging)\<close>.  \<open>task\<close>
  is \<open>None\<close> when the caller found no task: \<open>task.to_dict()\<close> then raises
  \<open>AttributeError\<close>.  The listing of \<open>gc.garbage\<close> at the end logs one line per
  collected object and is left out.
\<close>

definition process ::
  "collab \<Rightarrow> config \<Rightarrow> string option \<Rightarrow> string option \<Rightarrow> task option \<Rightarrow>
   bool \<Rightarrow> bool \<Rightarrow> bool \<Rightarrow> bool \<Rightarrow> 'a world_scheme \<Rightarrow> exn option \<times> 'a world_scheme" where
  "process pl cfg tgt copy_path tsk rep auto capeproc dbg w =
     (case tsk of
        None \<Rightarrow> (Some AttributeError, w)
      | Some t \<Rightarrow>
          let task_dict = py_or (to_dict t) (PDict []) in
          (case dict_get task_dict ''id'' of
             Inl e \<Rightarrow> (Some e, w)
           | Inr v \<Rightarrow>
               let task_id = py_or v (PInt 0);
                   results = seed_results;
                   w1 = gc_log dbg ''[%s] (1) GC object counts: %d, %d'' task_id w;
                   w2 = gc_log dbg ''[%s] (2) GC object counts: %d, %d'' task_id w1;
                   w3 = emit (RunProcessing task_dict results) w2 in
               (case run_processing pl task_dict results of
                  Inl e \<Rightarrow> (Some e, w3)
                | Inr results1 \<Rightarrow>
                    let w4 = gc_log dbg ''[%s] (3) GC object counts: %d, %d'' task_id w3;
                        w5 = emit (RunSignatures task_dict results1) w4 in
                    (case run_signatures pl task_dict results1 of
                       Inl e \<Rightarrow> (Some e, w5)
                     | Inr results2 \<Rightarrow>
                         let w6 = gc_log dbg ''[%s] (4) GC object counts: %d, %d'' task_id w5 in
                         (case (if rep
                                then report_stage pl cfg tgt copy_path t task_id results2 rep auto capeproc w6
                                else (None, w6)) of
                            (Some e, w7) \<Rightarrow> (Some e, w7)
                          | (None, w7) \<Rightarrow>
                              (None, gc_log dbg ''[%s] (5) GC object counts: %d, %d'' task_id w7))))))"

section \<open>\<open>init_logging\<close>, \<open>_load_report\<close>, \<open>main\<close> and the exit status\<close>













section \<open>Observations on traces and states\<close>

text \<open>The task ids handed to \<open>pool.schedule\<close>, in order, and the writes to the job store.\<close>

fun scheduled :: "event list \<Rightarrow> int list" where
  "scheduled [] = []"
| "scheduled (Schedule f i tg cp dbg tmo # es) = i # scheduled es"
| "scheduled (e # es) = scheduled es"

fun status_writes :: "event list \<Rightarrow> (pyval \<times> status) list" where
  "status_writes [] = []"
| "status_writes (SetStatus i st # es) = (i, st) # status_writes es"
| "status_writes (e # es) = status_writes es"

fun job_store_reads :: "event list \<Rightarrow> nat" where
  "job_store_reads [] = 0"
| "job_store_reads (ListTasks st n # es) = Suc (job_store_reads es)"
| "job_store_reads (ViewSample i # es) = Suc (job_store_reads es)"
| "job_store_reads (e # es) = job_store_reads es"

fun sleeps :: "event list \<Rightarrow> nat list" where
  "sleeps [] = []"
| "sleeps (Sleep n # es) = n # sleeps es"
| "sleeps (e # es) = sleeps es"

fun disk_checks :: "event list \<Rightarrow> nat" where
  "disk_checks [] = 0"
| "disk_checks (FreeSpaceMonitor p # es) = Suc (disk_checks es)"
| "disk_checks (e # es) = disk_checks es"

fun pipeline :: "event list \<Rightarrow> event list" where
  "pipeline [] = []"
| "pipeline (RunProcessing td r # es) = RunProcessing td r # pipeline es"
| "pipeline (RunSignatures td r # es) = RunSignatures td r # pipeline es"
| "pipeline (RunReporting td r b # es) = RunReporting td r b # pipeline es"
| "pipeline (SetStatus i st # es) = SetStatus i st # pipeline es"
| "pipeline (e # es) = pipeline es"

text \<open>The events that a function added to the trace.\<close>

definition new_events :: "'a world_scheme \<Rightarrow> 'b world_scheme \<Rightarrow> event list" where
  "new_events w w' = drop (length (trace w)) (trace w')"

text \<open>
  Two ways in which a pass of the loop can leave the scheduler's bookkeeping: untouched,
  or with the one job \<open>i\<close> handed to the pool under a new future.
\<close>

definition quiet :: "sched \<Rightarrow> sched \<Rightarrow> bool" where
  "quiet s s' \<longleftrightarrow>
     (\<exists>es. trace s' = trace s @ es \<and> scheduled es = []) \<and>
     pending_future_map s' = pending_future_map s \<and>
     pending_task_id_map s' = pending_task_id_map s \<and>
     count s' = count s \<and> next_future s' = next_future s"

definition dispatched :: "int \<Rightarrow> sched \<Rightarrow> sched \<Rightarrow> bool" where
  "dispatched i s s' \<longleftrightarrow>
     (\<exists>es. trace s' = trace s @ es \<and> scheduled es = [i]) \<and>
     pending_future_map s' = (pending_future_map s)(next_future s \<mapsto> i) \<and>
     pending_task_id_map s' = (pending_task_id_map s)(i \<mapsto> next_future s) \<and>
     count s' = count s + 1 \<and> next_future s' = Suc (next_future s)"

text \<open>The first task of the answer whose id is no key of \<open>pending_task_id_map\<close>.\<close>

definition candidate :: "sched \<Rightarrow> task list \<Rightarrow> task option" where
  "candidate s tasks = find (\<lambda>t. tid t \<notin> dom (pending_task_id_map s)) tasks"

text \<open>
  The two dictionaries mirror each other, every future in use came from the pool, and
  finitely many jobs are in flight.
\<close>

definition tables_ok :: "sched \<Rightarrow> bool" where
  "tables_ok s \<longleftrightarrow>
     (\<forall>f i. pending_future_map s f = Some i \<longleftrightarrow> pending_task_id_map s i = Some f) \<and>
     (\<forall>f i. pending_future_map s f = Some i \<longrightarrow> f < next_future s) \<and>
     finite (dom (pending_task_id_map s))"

text \<open>
  The number of jobs handed to the pool between two states equals the growth of
  \<open>count\<close>; and the bound on the jobs in flight together with the shape of the tables.
\<close>

definition counted :: "sched \<Rightarrow> sched \<Rightarrow> bool" where
  "counted s s' \<longleftrightarrow>
     (\<exists>es. trace s' = trace s @ es \<and> int (length (scheduled es)) = count s' - count s)"

definition in_bounds :: "args \<Rightarrow> sched \<Rightarrow> bool" where
  "in_bounds a s \<longleftrightarrow> tables_ok s \<and> card (dom (pending_task_id_map s)) \<le> nat (parallel a)"

text \<open>No call of \<open>free_space_monitor\<close> and no sleep of sixty seconds among the events.\<close>

definition no_disk_wait :: "event list \<Rightarrow> bool" where
  "no_disk_wait es \<longleftrightarrow> disk_checks es = 0 \<and> 60 \<notin> set (sleeps es)"

section \<open>The error situations of the exit-code contract\<close>



definition loop_start :: "args \<Rightarrow> sched \<Rightarrow> sched" where
  "loop_start a s =
     emit (PoolCreate (parallel a) (maxtasksperchild a))
       (emit (LogInfo ''Processing analysis data'' []) (snd (memory_limit (4 / 5) (s\<lparr>count := 0\<rparr>))))"




section \<open>A small installation, used to run the definitions\<close>

definition demo_config :: config where
  "demo_config =
     \<lparr>cuckoo_root = ''/opt/CAPEv2'', max_analysis_count = 2, freespace = 100,
      delete_original = False, delete_bin_copy = True, log_rotation_enabled = False,
      mongodb_enabled = False, elasticsearchdb_enabled = False, elasticsearchdb_searchonly = False\<rparr>"

definition demo_args :: args where
  "demo_args =
     \<lparr>parallel = 2, failed_processing = False, maxtasksperchild = 7, memory_debugging = False,
      processing_timeout = 300\<rparr>"

definition demo_world :: world where
  "demo_world =
     \<lparr>fs = {''/opt/CAPEv2/log'', ''/opt/CAPEv2/storage/binaries/abc'', ''/opt/CAPEv2/storage/analyses/7''},
      platform_system = ''Linux'', meminfo = Some [''MemAvailable: 2048 kB''],
      rlimit_as = (-1, -1), trace = []\<rparr>"

definition task_A :: task where
  "task_A = \<lparr>tid = 1, category = ''file'', target = ''/tmp/a.exe'', sample_id = 10,
              to_dict = PDict [(''id'', PInt 1)]\<rparr>"

definition task_B :: task where
  "task_B = \<lparr>tid = 2, category = ''file'', target = ''/tmp/b.exe'', sample_id = 11,
              to_dict = PDict [(''id'', PInt 2)]\<rparr>"

definition demo_env :: iter_env where
  "demo_env =
     \<lparr>space_answer = Inr (False, 5000), sleep_answer = None, tasks_answer = Inr [task_A, task_B],
      sample_answer = Inr (Some \<lparr>sha256 = ''abc''\<rparr>), schedule_answer = None\<rparr>"

text \<open>The state in which job 1 is in flight under the future 0.\<close>

definition busy_state :: sched where
  "busy_state =
     (init_sched demo_world)
       \<lparr>pending_future_map := [0 \<mapsto> 1], pending_task_id_map := [1 \<mapsto> 0], count := 1,
        next_future := 1\<rparr>"

text \<open>The state in which jobs 1 and 2 are in flight: the table is full for \<open>parallel = 2\<close>.\<close>

definition full_state :: sched where
  "full_state =
     (init_sched demo_world)
       \<lparr>pending_future_map := [0 \<mapsto> 1, 1 \<mapsto> 2], pending_task_id_map := [1 \<mapsto> 0, 2 \<mapsto> 1],
        count := 2, next_future := 2\<rparr>"

text \<open>Plugins that wrap the container they are given, and a job store that takes every write.\<close>

definition demo_collab :: collab where
  "demo_collab =
     \<lparr>run_processing = (\<lambda>td r. Inr (PList [PStr ''processing'', r])),
      run_signatures = (\<lambda>td r. Inr (PList [PStr ''signatures'', r])),
      run_signatures_named = (\<lambda>td r n. Inr r),
      run_reporting = (\<lambda>td r b. Inr r),
      set_status_answer = None,
      red = (\<lambda>m. m)\<rparr>"



section \<open>Properties of \<open>memory_limit\<close>\<close>

lemma memory_limit_not_linux:
  "platform_system w \<noteq> ''Linux'' \<Longrightarrow>
     memory_limit p w = (None, emit (Print ''Only works on linux!'') w)"
  by (simp add: memory_limit_def)

lemma memory_limit_linux:
  assumes "platform_system w = ''Linux''" and "get_memory w = Inr m"
    and "snd (rlimit_as w) = -1 \<or> (0 \<le> py_trunc (of_int (m * 1024) * p) \<and> py_trunc (of_int (m * 1024) * p) \<le> snd (rlimit_as w))"
  shows "fst (memory_limit p w) = None \<and>
         rlimit_as (snd (memory_limit p w)) = (py_trunc (of_int (m * 1024) * p), snd (rlimit_as w))"
  using assms by (auto simp: memory_limit_def setrlimit_as_def emit_def Let_def)

lemma get_memory_lines_no_figure:
  "\<forall>l \<in> set ls. split_ws l \<noteq> [] \<and> hd (split_ws l) \<noteq> ''MemAvailable:'' \<Longrightarrow> get_memory_lines ls = Inr 0"
  by (induction ls) (auto split: list.splits)

lemma memory_limit_no_figure:
  assumes "platform_system w = ''Linux''" and "meminfo w = Some ls"
    and "\<forall>l \<in> set ls. split_ws l \<noteq> [] \<and> hd (split_ws l) \<noteq> ''MemAvailable:''"
    and "snd (rlimit_as w) = -1 \<or> 0 \<le> snd (rlimit_as w)"
  shows "fst (memory_limit p w) = None \<and> rlimit_as (snd (memory_limit p w)) = (0, snd (rlimit_as w))"
proof -
  from assms(2,3) have "get_memory w = Inr 0"
    by (simp add: get_memory_def get_memory_lines_no_figure)
  with assms(1,4) show ?thesis
    by (auto simp: memory_limit_def setrlimit_as_def py_trunc_def emit_def Let_def)
qed

text \<open>
  Claim C8 (memory-limit platform semantics).  Off Linux \<open>memory_limit\<close> only prints a
  message, and on Linux it sets the soft limit to the fraction of the available memory
  (lemmas \<open>memory_limit_not_linux\<close> and \<open>memory_limit_linux\<close>).  But a \<open>/proc/meminfo\<close> that has no \<open>MemAvailable:\<close> line is
  not treated as unknown: \<open>get_memory\<close> returns its initial \<open>0\<close>, and \<open>memory_limit\<close>
  sets a soft address-space limit of \<open>0\<close> bytes.
\<close>

theorem memory_limit_without_MemAvailable_sets_zero:
  "memory_limit (4 / 5)
     \<lparr>fs = {}, platform_system = ''Linux'',
      meminfo = Some [''MemTotal: 16 kB'', ''MemFree: 8 kB''],
      rlimit_as = (-1, -1), trace = []\<rparr>
   = (None,
      \<lparr>fs = {}, platform_system = ''Linux'',
       meminfo = Some [''MemTotal: 16 kB'', ''MemFree: 8 kB''],
       rlimit_as = (0, -1), trace = [SetRlimitAs 0 (-1)]\<rparr>)"
  by (simp add: memory_limit_def get_memory_def split_ws_def is_space_def setrlimit_as_def
        py_trunc_def emit_def Let_def)

section \<open>One pass of the loop dispatches at most one job\<close>


lemma trace_emit [simp]: "trace (emit e w) = trace w @ [e]"
  by (simp add: emit_def)

lemma trace_emits [simp]: "trace (emits es w) = trace w @ es"
  by (simp add: emits_def)

lemma new_events_append [simp]: "trace w' = trace w @ es \<Longrightarrow> new_events w w' = es"
  by (simp add: new_events_def)

lemma scheduled_append [simp]: "scheduled (xs @ ys) = scheduled xs @ scheduled ys"
  by (induction xs rule: scheduled.induct) auto

lemma sched_emit [simp]:
  "pending_future_map (emit e s) = pending_future_map s"
  "pending_task_id_map (emit e s) = pending_task_id_map s"
  "count (emit e s) = count s" "next_future (emit e s) = next_future s" "fs (emit e s) = fs s"
  by (simp_all add: emit_def)

lemma sched_emits [simp]:
  "pending_future_map (emits es s) = pending_future_map s"
  "pending_task_id_map (emits es s) = pending_task_id_map s"
  "count (emits es s) = count s" "next_future (emits es s) = next_future s" "fs (emits es s) = fs s"
  by (simp_all add: emits_def)

lemma pending_iff: "pending s i \<longleftrightarrow> i \<in> dom (pending_task_id_map s)"
  by (auto simp: pending_def future_truthy_def split: option.splits)

lemma quiet_refl [simp]: "quiet s s"
  by (simp add: quiet_def)

lemma quiet_emit [simp]: "scheduled [e] = [] \<Longrightarrow> quiet s (emit e s)"
  by (simp add: quiet_def)

lemma quiet_emits [simp]: "scheduled es = [] \<Longrightarrow> quiet s (emits es s)"
  by (simp add: quiet_def)

lemma quiet_trans: "quiet s s1 \<Longrightarrow> quiet s1 s2 \<Longrightarrow> quiet s s2"
  by (auto simp: quiet_def)

lemma quiet_dispatched: "quiet s s1 \<Longrightarrow> dispatched i s1 s2 \<Longrightarrow> dispatched i s s2"
  by (auto simp: quiet_def dispatched_def)

lemma dispatched_quiet: "dispatched i s s1 \<Longrightarrow> quiet s1 s2 \<Longrightarrow> dispatched i s s2"
  by (auto simp: quiet_def dispatched_def)

lemma quiet_gc_log [simp]: "quiet s (gc_log dbg fmt i s)"
  by (simp add: gc_log_def)

lemma quiet_unlink_origin [simp]: "quiet s (unlink_origin cfg cp s)"
  by (auto simp: unlink_origin_def quiet_def emit_def Let_def split: option.splits)

lemma submit_cases:
  "(fst (submit cfg a env t cp s) \<noteq> None \<and> quiet s (snd (submit cfg a env t cp s))) \<or>
   (fst (submit cfg a env t cp s) = None \<and> dispatched (tid t) s (snd (submit cfg a env t cp s)))"
proof (cases "schedule_answer env")
  case (Some e)
  then show ?thesis by (simp add: submit_def Let_def)
next
  case None
  let ?s1 = "gc_log (memory_debugging a) ''[%d] (before) GC object counts: %d, %d'' (PInt (tid t)) s"
  let ?s2 = "emit (Schedule (next_future ?s1) (tid t) (target t) (map_option snd cp)
                          (memory_debugging a) (processing_timeout a))
                     (?s1\<lparr>next_future := Suc (next_future ?s1)\<rparr>)"
  let ?s4 = "?s2\<lparr>pending_future_map := (pending_future_map ?s2)(next_future ?s1 \<mapsto> tid t),
                 pending_task_id_map := (pending_task_id_map ?s2)(tid t \<mapsto> next_future ?s1)\<rparr>"
  let ?s6 = "gc_log (memory_debugging a) ''[%d] (after) GC object counts: %d, %d'' (PInt (tid t))
               (emit (AddDoneCallback (next_future ?s1)) ?s4)"
  let ?s7 = "?s6\<lparr>count := count ?s6 + 1\<rparr>"
  have eq: "submit cfg a env t cp s = (None, unlink_origin cfg cp ?s7)"
    using None by (simp add: submit_def Let_def)
  have "dispatched (tid t) s ?s7"
    by (simp add: dispatched_def gc_log_def emit_def emits_def)
  then have "dispatched (tid t) s (unlink_origin cfg cp ?s7)"
    by (rule dispatched_quiet) simp
  with eq show ?thesis by simp
qed


lemma dispatch_cases:
  "(fst (dispatch cfg a env t s) \<noteq> None \<and> quiet s (snd (dispatch cfg a env t s))) \<or>
   (fst (dispatch cfg a env t s) = None \<and> dispatched (tid t) s (snd (dispatch cfg a env t s)))"
proof -
  let ?s1 = "emit (LogInfo ''Processing analysis data for Task #%d'' [PInt (tid t)]) s"
  let ?s2 = "emit (ViewSample (sample_id t)) ?s1"
  have q1: "quiet s ?s1" by simp
  have q2: "quiet s ?s2" by (simp add: quiet_def)
  show ?thesis
  proof (cases "category t = ''url''")
    case True
    then have eq: "dispatch cfg a env t s = submit cfg a env t None ?s1"
      by (simp add: dispatch_def Let_def)
    from submit_cases[of cfg a env t None ?s1] q1 show ?thesis
      unfolding eq by (blast intro: quiet_trans quiet_dispatched)
  next
    case False
    show ?thesis
    proof (cases "sample_answer env")
      case (Inl e)
      with False q2 show ?thesis by (simp add: dispatch_def Let_def)
    next
      case (Inr so)
      show ?thesis
      proof (cases so)
        case None
        with False Inr q2 show ?thesis by (simp add: dispatch_def Let_def)
      next
        case (Some smp)
        with False Inr
        have eq: "dispatch cfg a env t s = submit cfg a env t (Some (smp, copy_path_of cfg t smp)) ?s2"
          by (simp add: dispatch_def Let_def)
        from submit_cases[of cfg a env t "Some (smp, copy_path_of cfg t smp)" ?s2] q2 show ?thesis
          unfolding eq by (blast intro: quiet_trans quiet_dispatched)
      qed
    qed
  qed
qed

lemma for_tasks_candidate:
  "for_tasks cfg a env tasks s =
     (case candidate s tasks of
        None \<Rightarrow> (None, False, s)
      | Some t \<Rightarrow> (fst (dispatch cfg a env t s), True, snd (dispatch cfg a env t s)))"
  by (induction tasks) (auto simp: candidate_def pending_iff split: prod.splits)

lemma candidate_not_pending:
  "candidate s tasks = Some t \<Longrightarrow> tid t \<notin> dom (pending_task_id_map s) \<and> t \<in> set tasks"
  by (auto simp: candidate_def find_Some_iff)

lemma poll_cases:
  "quiet s (snd (poll cfg a env s)) \<or>
   (fst (poll cfg a env s) = None \<and>
    (\<exists>tasks t. tasks_answer env = Inr tasks \<and> candidate s tasks = Some t \<and>
       int (card (dom (pending_task_id_map s))) < parallel a \<and>
       dispatched (tid t) s (snd (poll cfg a env s))))"
proof (cases "int (card (dom (pending_task_id_map s))) \<ge> parallel a")
  case True
  then show ?thesis by (simp add: poll_def)
next
  case False
  let ?st = "if failed_processing a then TASK_FAILED_PROCESSING else TASK_COMPLETED"
  let ?s1 = "emit (ListTasks ?st (parallel a)) s"
  have q1: "quiet s ?s1" by simp
  have c1: "\<And>tasks. candidate ?s1 tasks = candidate s tasks" by (simp add: candidate_def)
  show ?thesis
  proof (cases "tasks_answer env")
    case (Inl e)
    with False q1 show ?thesis by (simp add: poll_def Let_def)
  next
    case (Inr tasks)
    show ?thesis
    proof (cases "candidate s tasks")
      case None
      with False Inr c1 have "poll cfg a env s = (sleep_answer env, emit (Sleep 5) ?s1)"
        by (simp add: poll_def Let_def for_tasks_candidate)
      moreover have "quiet s (emit (Sleep 5) ?s1)" by (simp add: quiet_def)
      ultimately show ?thesis by simp
    next
      case (Some t)
      let ?d = "dispatch cfg a env t ?s1"
      from False Inr Some c1 have eq: "poll cfg a env s = (fst ?d, snd ?d)"
        by (cases "fst ?d") (simp_all add: poll_def Let_def for_tasks_candidate)
      from dispatch_cases[of cfg a env t ?s1] show ?thesis
      proof
        assume "fst ?d \<noteq> None \<and> quiet ?s1 (snd ?d)"
        then have "quiet s (snd ?d)" using q1 by (blast intro: quiet_trans)
        with eq show ?thesis by simp
      next
        assume "fst ?d = None \<and> dispatched (tid t) ?s1 (snd ?d)"
        then have "fst ?d = None" and "dispatched (tid t) s (snd ?d)"
          using q1 by (blast intro: quiet_dispatched)+
        with eq False Inr Some show ?thesis by simp
      qed
    qed
  qed
qed

lemma iteration_cases:
  "quiet s (snd (iteration cfg a env s)) \<or>
   (fst (iteration cfg a env s) = None \<and>
    (\<exists>tasks t. tasks_answer env = Inr tasks \<and> candidate s tasks = Some t \<and>
       int (card (dom (pending_task_id_map s))) < parallel a \<and>
       dispatched (tid t) s (snd (iteration cfg a env s))))"
proof (cases "freespace cfg \<noteq> 0")
  case False
  then have "iteration cfg a env s = poll cfg a env s" by (simp add: iteration_def)
  with poll_cases[of s cfg a env] show ?thesis by simp
next
  case True
  let ?s1 = "emit (FreeSpaceMonitor (path_join (cuckoo_root cfg) [''storage'', ''analyses''])) s"
  have q1: "quiet s ?s1" by simp
  have c1: "\<And>tasks. candidate ?s1 tasks = candidate s tasks" by (simp add: candidate_def)
  show ?thesis
  proof (cases "space_answer env")
    case (Inl e)
    with True q1 show ?thesis by (simp add: iteration_def Let_def)
  next
    case (Inr p)
    obtain need_space av where p: "p = (need_space, av)" by (cases p)
    show ?thesis
    proof (cases need_space)
      case True
      with \<open>freespace cfg \<noteq> 0\<close> Inr p show ?thesis
        by (simp add: iteration_def Let_def quiet_def)
    next
      case False
      with \<open>freespace cfg \<noteq> 0\<close> Inr p have eq: "iteration cfg a env s = poll cfg a env ?s1"
        by (simp add: iteration_def Let_def)
      have p1: "pending_task_id_map ?s1 = pending_task_id_map s" by simp
      from poll_cases[of ?s1 cfg a env] q1 show ?thesis
        unfolding eq c1 p1 by (blast intro: quiet_trans quiet_dispatched)
    qed
  qed
qed


lemma counted_refl [simp]: "counted s s"
  by (simp add: counted_def)

lemma counted_trans: "counted s s1 \<Longrightarrow> counted s1 s2 \<Longrightarrow> counted s s2"
  by (auto simp: counted_def)

lemma quiet_counted: "quiet s s' \<Longrightarrow> counted s s'"
  by (auto simp: quiet_def counted_def)

lemma dispatched_counted: "dispatched i s s' \<Longrightarrow> counted s s'"
  by (auto simp: dispatched_def counted_def)

subsection \<open>The done-callback keeps the bookkeeping consistent\<close>

lemma future_result_quiet: "quiet s (snd (future_result v res dbr s))"
  by (auto simp: future_result_def mark_failed_def quiet_def split: sum.splits)

lemma del_entries_shape:
  "trace (snd (del_entries f v s)) = trace s \<and> count (snd (del_entries f v s)) = count s \<and>
   next_future (snd (del_entries f v s)) = next_future s \<and> fs (snd (del_entries f v s)) = fs s"
  by (simp add: del_entries_def Let_def split: option.splits)

lemma mirror_delete:
  assumes "\<forall>g j. pfm g = Some j \<longleftrightarrow> ptm j = Some g" and "pfm f = Some (i::int)"
  shows "\<forall>g j. (pfm(f := None)) g = Some j \<longleftrightarrow> (ptm(i := None)) j = Some (g::nat)"
proof (intro allI)
  fix g j
  from assms have pi: "ptm i = Some f" by simp
  show "(pfm(f := None)) g = Some j \<longleftrightarrow> (ptm(i := None)) j = Some g"
  proof (cases "g = f")
    case True
    have "\<not> (j \<noteq> i \<and> ptm j = Some f)"
    proof
      assume "j \<noteq> i \<and> ptm j = Some f"
      with assms(1) have "pfm f = Some j" by simp
      with assms(2) \<open>j \<noteq> i \<and> ptm j = Some f\<close> show False by simp
    qed
    with True show ?thesis by auto
  next
    case False
    with pi assms(1) show ?thesis by (cases "j = i") auto
  qed
qed

lemma mirror_insert:
  assumes "\<forall>g j. pfm g = Some j \<longleftrightarrow> ptm j = Some g" and "ptm (i::int) = None"
    and "\<forall>g j. pfm g = Some j \<longrightarrow> g < (n::nat)"
  shows "\<forall>g j. (pfm(n \<mapsto> i)) g = Some j \<longleftrightarrow> (ptm(i \<mapsto> n)) j = Some g"
proof (intro allI)
  fix g j
  have nn: "pfm n = None"
  proof (cases "pfm n")
    case (Some k)
    with assms(3) have "n < n" by blast
    then show ?thesis by simp
  qed simp
  show "(pfm(n \<mapsto> i)) g = Some j \<longleftrightarrow> (ptm(i \<mapsto> n)) j = Some g"
  proof (cases "g = n")
    case True
    from nn assms(1) have "ptm j \<noteq> Some n" by (metis option.distinct(1))
    with True show ?thesis by auto
  next
    case False
    from assms(1,2) have "pfm g \<noteq> Some i" by (metis option.distinct(1))
    with False assms(1) show ?thesis by (cases "j = i") auto
  qed
qed

lemma del_entries_tables:
  "tables_ok s \<Longrightarrow> v = pending_future_map s f \<Longrightarrow> tables_ok (snd (del_entries f v s))"
proof (cases "pending_future_map s f")
  case None
  assume "tables_ok s"
  with None show ?thesis by (simp add: del_entries_def)
next
  case (Some i)
  assume ok: "tables_ok s" and v: "v = pending_future_map s f"
  from ok have m: "\<forall>g j. pending_future_map s g = Some j \<longleftrightarrow> pending_task_id_map s j = Some g"
    by (simp add: tables_ok_def)
  with Some have pi: "pending_task_id_map s i = Some f" by simp
  have eq: "snd (del_entries f v s) =
      s\<lparr>pending_future_map := (pending_future_map s)(f := None),
        pending_task_id_map := (pending_task_id_map s)(i := None)\<rparr>"
    using Some v pi by (simp add: del_entries_def Let_def)
  let ?s' = "s\<lparr>pending_future_map := (pending_future_map s)(f := None),
        pending_task_id_map := (pending_task_id_map s)(i := None)\<rparr>"
  from ok have b: "\<forall>g j. pending_future_map s g = Some j \<longrightarrow> g < next_future s"
    and fin: "finite (dom (pending_task_id_map s))"
    by (simp_all add: tables_ok_def)
  have b': "\<forall>g j. pending_future_map ?s' g = Some j \<longrightarrow> g < next_future ?s'"
    using b by (auto split: if_splits)
  have fin': "finite (dom (pending_task_id_map ?s'))" using fin by simp
  have m': "\<forall>g j. pending_future_map ?s' g = Some j \<longleftrightarrow> pending_task_id_map ?s' j = Some g"
    using mirror_delete[OF m Some] by simp
  from m' b' fin' show ?thesis
    unfolding eq tables_ok_def by blast
qed

lemma del_entries_dom:
  "dom (pending_task_id_map (snd (del_entries f v s))) \<subseteq> dom (pending_task_id_map s)"
  by (auto simp: del_entries_def Let_def split: option.splits if_splits)

lemma pf_unfold:
  "snd (processing_finished f res dbr s) =
     (let s1 = snd (future_result (pending_future_map s f) res dbr s) in
      if fst (future_result (pending_future_map s f) res dbr s) = None
      then snd (del_entries f (pending_future_map s f) s1) else s1)"
  by (simp add: processing_finished_def Let_def split: prod.splits option.splits)

lemma pf_counted: "counted s (snd (processing_finished f res dbr s))"
proof -
  let ?v = "pending_future_map s f"
  let ?s1 = "snd (future_result ?v res dbr s)"
  have q: "quiet s ?s1" by (rule future_result_quiet)
  then have c1: "counted s ?s1" by (rule quiet_counted)
  have "counted ?s1 (snd (del_entries f ?v ?s1))"
    using del_entries_shape[of f ?v ?s1] by (simp add: counted_def)
  with c1 have "counted s (snd (del_entries f ?v ?s1))" by (rule counted_trans)
  with c1 show ?thesis by (simp add: pf_unfold Let_def)
qed

lemma pf_count [simp]: "count (snd (processing_finished f res dbr s)) = count s"
  using future_result_quiet[of s "pending_future_map s f" res dbr]
        del_entries_shape[of f "pending_future_map s f" "snd (future_result (pending_future_map s f) res dbr s)"]
  by (simp add: pf_unfold Let_def quiet_def)

lemma pf_tables: "tables_ok s \<Longrightarrow> tables_ok (snd (processing_finished f res dbr s))"
proof -
  assume ok: "tables_ok s"
  let ?v = "pending_future_map s f"
  let ?s1 = "snd (future_result ?v res dbr s)"
  have q: "quiet s ?s1" by (rule future_result_quiet)
  then have ok1: "tables_ok ?s1" and v: "?v = pending_future_map ?s1 f"
    using ok by (simp_all add: quiet_def tables_ok_def)
  from del_entries_tables[OF ok1 v] ok1 show ?thesis by (simp add: pf_unfold Let_def)
qed

lemma pf_dom:
  "dom (pending_task_id_map (snd (processing_finished f res dbr s))) \<subseteq> dom (pending_task_id_map s)"
proof -
  let ?v = "pending_future_map s f"
  let ?s1 = "snd (future_result ?v res dbr s)"
  have q: "pending_task_id_map ?s1 = pending_task_id_map s"
    using future_result_quiet[of s ?v res dbr] by (simp add: quiet_def)
  from del_entries_dom[of f ?v ?s1] q show ?thesis by (auto simp: pf_unfold Let_def)
qed

subsection \<open>Invariants of the loop\<close>

lemma quiet_tables: "quiet s s' \<Longrightarrow> tables_ok s \<Longrightarrow> tables_ok s'"
  by (simp add: quiet_def tables_ok_def)

lemma dispatched_tables:
  assumes d: "dispatched i s s'" and np: "i \<notin> dom (pending_task_id_map s)" and ok: "tables_ok s"
  shows "tables_ok s'"
proof -
  from ok have m: "\<forall>g j. pending_future_map s g = Some j \<longleftrightarrow> pending_task_id_map s j = Some g"
    and b: "\<forall>g j. pending_future_map s g = Some j \<longrightarrow> g < next_future s"
    and fin: "finite (dom (pending_task_id_map s))"
    by (simp_all add: tables_ok_def)
  from np have n: "pending_task_id_map s i = None" by auto
  from d have e1: "pending_future_map s' = (pending_future_map s)(next_future s \<mapsto> i)"
    and e2: "pending_task_id_map s' = (pending_task_id_map s)(i \<mapsto> next_future s)"
    and e3: "next_future s' = Suc (next_future s)"
    by (simp_all add: dispatched_def)
  have b': "\<forall>g j. pending_future_map s' g = Some j \<longrightarrow> g < next_future s'"
    using b unfolding e1 e3 by (auto simp: less_Suc_eq)
  have fin': "finite (dom (pending_task_id_map s'))" using fin unfolding e2 by simp
  from mirror_insert[OF m n b] b' fin' show ?thesis
    unfolding tables_ok_def e1 e2 by blast
qed

lemma iteration_within: "in_bounds a s \<Longrightarrow> in_bounds a (snd (iteration cfg a env s))"
proof -
  assume w: "in_bounds a s"
  let ?s' = "snd (iteration cfg a env s)"
  from iteration_cases[of s cfg a env] show ?thesis
  proof
    assume "quiet s ?s'"
    with w show ?thesis by (auto simp: in_bounds_def quiet_tables) (simp add: quiet_def)
  next
    assume "fst (iteration cfg a env s) = None \<and>
      (\<exists>tasks t. tasks_answer env = Inr tasks \<and> candidate s tasks = Some t \<and>
       int (card (dom (pending_task_id_map s))) < parallel a \<and> dispatched (tid t) s ?s')"
    then obtain tasks t where c: "candidate s tasks = Some t"
      and lt: "int (card (dom (pending_task_id_map s))) < parallel a"
      and d: "dispatched (tid t) s ?s'" by blast
    from c have np: "tid t \<notin> dom (pending_task_id_map s)" by (simp add: candidate_not_pending)
    from w have ok: "tables_ok s" and fin: "finite (dom (pending_task_id_map s))"
      by (simp_all add: in_bounds_def tables_ok_def)
    from d np ok have ok': "tables_ok ?s'" by (rule dispatched_tables)
    from d have "dom (pending_task_id_map ?s') = insert (tid t) (dom (pending_task_id_map s))"
      by (simp add: dispatched_def)
    with fin np have "card (dom (pending_task_id_map ?s')) = Suc (card (dom (pending_task_id_map s)))"
      by simp
    with lt have "card (dom (pending_task_id_map ?s')) \<le> nat (parallel a)" by linarith
    with ok' show ?thesis by (simp add: in_bounds_def)
  qed
qed

lemma pf_within: "in_bounds a s \<Longrightarrow> in_bounds a (snd (processing_finished f res dbr s))"
proof -
  assume w: "in_bounds a s"
  then have fin: "finite (dom (pending_task_id_map s))" by (simp add: in_bounds_def tables_ok_def)
  from card_mono[OF fin pf_dom[of f res dbr s]] w pf_tables[of s f res dbr]
  show ?thesis by (simp add: in_bounds_def)
qed

lemma while_loop_within:
  "in_bounds a s \<Longrightarrow> in_bounds a (snd (snd (while_loop cfg a script s)))"
proof (induction script arbitrary: s)
  case Nil
  then show ?case by simp
next
  case (Cons st rest)
  show ?case
  proof (cases st)
    case (Iteration env)
    from Cons.prems have w': "in_bounds a (snd (iteration cfg a env s))" by (rule iteration_within)
    show ?thesis
      using Iteration Cons.prems Cons.IH[OF w'] w'
      by (cases "iteration cfg a env s"; cases "fst (iteration cfg a env s)") auto
  next
    case (Completion f res dbr)
    from Cons.prems have w': "in_bounds a (snd (processing_finished f res dbr s))" by (rule pf_within)
    show ?thesis using Completion Cons.prems Cons.IH[OF w'] by simp
  qed
qed

lemma drain_within: "in_bounds a s \<Longrightarrow> in_bounds a (drain rest s)"
proof (induction rest arbitrary: s)
  case Nil then show ?case by simp
next
  case (Cons st rest)
  then show ?case by (cases st) (auto intro: pf_within)
qed

section \<open>At most one execution in flight per job\<close>

lemma init_sched_fields [simp]:
  "pending_future_map (init_sched w) = Map.empty"
  "pending_task_id_map (init_sched w) = Map.empty"
  "count (init_sched w) = 0" "next_future (init_sched w) = 0"
  "trace (init_sched w) = trace w" "fs (init_sched w) = fs w"
  "meminfo (init_sched w) = meminfo w" "platform_system (init_sched w) = platform_system w"
  "rlimit_as (init_sched w) = rlimit_as w"
  by (simp_all add: init_sched_def world.extend_def)

lemma init_in_bounds: "in_bounds a (init_sched w)"
  by (simp add: in_bounds_def tables_ok_def)

lemma tables_ok_inj:
  "tables_ok s \<Longrightarrow> pending_future_map s f = Some i \<Longrightarrow> pending_future_map s g = Some i \<Longrightarrow> f = g"
  by (metis option.inject tables_ok_def)

lemma iteration_schedules:
  "\<exists>es. trace (snd (iteration cfg a env s)) = trace s @ es \<and>
        (scheduled es = [] \<or>
         (\<exists>tasks t. tasks_answer env = Inr tasks \<and> candidate s tasks = Some t \<and>
                    scheduled es = [tid t]))"
  using iteration_cases[of s cfg a env] unfolding quiet_def dispatched_def by blast

text \<open>
  Claim C1 (at most one in-flight execution per job).  A pass of the loop hands at most
  one job to the pool; when it does, the job is the first task of the job store's answer
  whose id is no key of \<open>pending_task_id_map\<close>, so no id that is in the table is
  handed over again.  And in every state that the loop reaches from the empty tables,
  whatever the script, no two futures in flight carry the same job id.
\<close>

theorem at_most_one_in_flight_per_job:
  "(\<exists>es. trace (snd (iteration cfg a env s)) = trace s @ es \<and>
         (scheduled es = [] \<or>
          (\<exists>tasks t. tasks_answer env = Inr tasks \<and> candidate s tasks = Some t \<and>
                     scheduled es = [tid t])) \<and>
         (\<forall>i \<in> dom (pending_task_id_map s). i \<notin> set (scheduled es))) \<and>
   (\<forall>f g i. pending_future_map (snd (snd (while_loop cfg a script (init_sched w)))) f = Some i \<and>
            pending_future_map (snd (snd (while_loop cfg a script (init_sched w)))) g = Some i
            \<longrightarrow> f = g)"
proof (intro conjI allI impI)
  from iteration_schedules[of cfg a env s] obtain es where
    tr: "trace (snd (iteration cfg a env s)) = trace s @ es" and
    sh: "scheduled es = [] \<or>
         (\<exists>tasks t. tasks_answer env = Inr tasks \<and> candidate s tasks = Some t \<and>
                    scheduled es = [tid t])" by blast
  have "\<forall>i \<in> dom (pending_task_id_map s). i \<notin> set (scheduled es)"
  proof
    fix i assume i: "i \<in> dom (pending_task_id_map s)"
    from sh show "i \<notin> set (scheduled es)"
    proof
      assume "scheduled es = []" then show ?thesis by simp
    next
      assume "\<exists>tasks t. tasks_answer env = Inr tasks \<and> candidate s tasks = Some t \<and>
                    scheduled es = [tid t]"
      then obtain tasks t where c: "candidate s tasks = Some t" and e: "scheduled es = [tid t]"
        by blast
      from candidate_not_pending[OF c] i have "i \<noteq> tid t" by blast
      with e show ?thesis by simp
    qed
  qed
  with tr sh show "\<exists>es. trace (snd (iteration cfg a env s)) = trace s @ es \<and>
         (scheduled es = [] \<or>
          (\<exists>tasks t. tasks_answer env = Inr tasks \<and> candidate s tasks = Some t \<and>
                     scheduled es = [tid t])) \<and>
         (\<forall>i \<in> dom (pending_task_id_map s). i \<notin> set (scheduled es))" by blast
next
  fix f g i
  assume h: "pending_future_map (snd (snd (while_loop cfg a script (init_sched w)))) f = Some i \<and>
            pending_future_map (snd (snd (while_loop cfg a script (init_sched w)))) g = Some i"
  have "in_bounds a (snd (snd (while_loop cfg a script (init_sched w))))"
    by (rule while_loop_within) (rule init_in_bounds)
  then have "tables_ok (snd (snd (while_loop cfg a script (init_sched w))))"
    by (simp add: in_bounds_def)
  with h show "f = g" by (blast intro: tables_ok_inj)
qed


text \<open>The installation above: job 1 is in flight and the job store answers with jobs 1 and 2.\<close>

lemmas demo_defs = demo_config_def demo_args_def demo_world_def task_A_def task_B_def demo_env_def
  busy_state_def init_sched_def world.extend_def

lemmas run_defs = iteration_def poll_def dispatch_def submit_def unlink_origin_def gc_log_def
  pending_def future_truthy_def emit_def emits_def copy_path_of_def copy_origin_path_of_def
  path_join_def join2_def Let_def

lemma str_int_2: "str_int 2 = ''2''"
  by code_simp

lemma demo_iteration:
  "iteration demo_config demo_args demo_env busy_state =
     (None, busy_state\<lparr>fs := {''/opt/CAPEv2/log'', ''/opt/CAPEv2/storage/analyses/7''},
        trace := [FreeSpaceMonitor ''/opt/CAPEv2/storage/analyses'', ListTasks TASK_COMPLETED 2,
                  LogInfo ''Processing analysis data for Task #%d'' [PInt 2], ViewSample 11,
                  Schedule 1 2 ''/tmp/b.exe'' (Some ''/opt/CAPEv2/storage/binaries/2/abc'') False 300,
                  AddDoneCallback 1, Unlink ''/opt/CAPEv2/storage/binaries/abc''],
        pending_future_map := [0 \<mapsto> 1, 1 \<mapsto> 2], pending_task_id_map := [1 \<mapsto> 0, 2 \<mapsto> 1],
        count := 2, next_future := 2\<rparr>)"
  by (simp add: demo_defs run_defs str_int_2 insert_Diff_if)

lemma demo_first_pass:
  "pending_future_map (snd (snd (while_loop demo_config demo_args [Iteration demo_env] (init_sched demo_world))))
   = [0 \<mapsto> 1]"
proof -
  let ?s = "init_sched demo_world"
  let ?i = "iteration demo_config demo_args demo_env ?s"
  have i: "fst ?i = None" "pending_future_map (snd ?i) = [0 \<mapsto> 1]"
    by (simp_all add: run_defs demo_config_def demo_args_def demo_env_def task_A_def task_B_def
          demo_world_def init_sched_def world.extend_def)
  have "count ?s = 0" and "max_analysis_count demo_config = 2"
    by (simp_all add: demo_defs)
  with i show ?thesis by (cases ?i) (auto simp: loop_cond_def split: if_splits)
qed

theorem at_most_one_in_flight_per_job_witness:
  "1 \<in> dom (pending_task_id_map busy_state) \<and>
   (\<exists>es. trace (snd (iteration demo_config demo_args demo_env busy_state)) = trace busy_state @ es \<and>
         1 \<notin> set (scheduled es) \<and> scheduled es = [2]) \<and>
   pending_future_map (snd (snd (while_loop demo_config demo_args [] (init_sched demo_world)))) = Map.empty \<and>
   pending_future_map (snd (snd (while_loop demo_config demo_args [Iteration demo_env] (init_sched demo_world)))) 0
     = Some 1"
proof -
  have d: "1 \<in> dom (pending_task_id_map busy_state)" by (simp add: demo_defs)
  have t: "trace busy_state = []" by (simp add: demo_defs)
  from at_most_one_in_flight_per_job[of demo_config demo_args demo_env busy_state]
  obtain es where tr: "trace (snd (iteration demo_config demo_args demo_env busy_state)) = trace busy_state @ es"
    and no: "\<forall>i \<in> dom (pending_task_id_map busy_state). i \<notin> set (scheduled es)" by blast
  from tr have "es = trace (snd (iteration demo_config demo_args demo_env busy_state))" by (simp add: t)
  then have "scheduled es = [2]" by (simp add: demo_iteration)
  with d tr no have a: "1 \<in> dom (pending_task_id_map busy_state) \<and>
   (\<exists>es. trace (snd (iteration demo_config demo_args demo_env busy_state)) = trace busy_state @ es \<and>
         1 \<notin> set (scheduled es) \<and> scheduled es = [2])" by blast
  have b: "pending_future_map (snd (snd (while_loop demo_config demo_args [] (init_sched demo_world)))) = Map.empty"
    by simp
  have c: "pending_future_map (snd (snd (while_loop demo_config demo_args [Iteration demo_env] (init_sched demo_world)))) 0
     = Some 1"
    unfolding demo_first_pass by simp
  from a b c show ?thesis by blast
qed

section \<open>The concurrency ceiling\<close>

lemma in_bounds_cong:
  "pending_future_map s' = pending_future_map s \<Longrightarrow> pending_task_id_map s' = pending_task_id_map s \<Longrightarrow>
   next_future s' = next_future s \<Longrightarrow> in_bounds a s \<Longrightarrow> in_bounds a s'"
  by (simp add: in_bounds_def tables_ok_def)

lemma memory_limit_sched:
  "pending_future_map (snd (memory_limit p s)) = pending_future_map s \<and>
   pending_task_id_map (snd (memory_limit p s)) = pending_task_id_map s \<and>
   next_future (snd (memory_limit p s)) = next_future s \<and>
   count (snd (memory_limit p s)) = count s \<and>
   (\<exists>es. trace (snd (memory_limit p s)) = trace s @ es \<and> scheduled es = [])"
  by (auto simp: memory_limit_def setrlimit_as_def emit_def Let_def split: sum.splits)

lemma finally_block_sched:
  "pending_future_map (snd (finally_block b r s)) = pending_future_map s \<and>
   pending_task_id_map (snd (finally_block b r s)) = pending_task_id_map s \<and>
   next_future (snd (finally_block b r s)) = next_future s \<and>
   count (snd (finally_block b r s)) = count s \<and>
   (\<exists>es. trace (snd (finally_block b r s)) = trace s @ es \<and> scheduled es = [])"
  by (simp add: finally_block_def)

lemma handlers_sched:
  "pending_future_map (snd (handlers b e s)) = pending_future_map s \<and>
   pending_task_id_map (snd (handlers b e s)) = pending_task_id_map s \<and>
   next_future (snd (handlers b e s)) = next_future s \<and>
   count (snd (handlers b e s)) = count s \<and>
   (\<exists>es. trace (snd (handlers b e s)) = trace s @ es \<and> scheduled es = [])"
  by (simp add: handlers_def finally_block_def split: sum.splits)

lemma finally_block_bounds: "in_bounds a s \<Longrightarrow> in_bounds a (snd (finally_block b r s))"
  using finally_block_sched[of b r s] by (blast intro: in_bounds_cong)

lemma handlers_bounds: "in_bounds a s \<Longrightarrow> in_bounds a (snd (handlers b e s))"
  using handlers_sched[of b e s] by (blast intro: in_bounds_cong)

lemma pool_exit_bounds: "in_bounds a s \<Longrightarrow> in_bounds a (pool_exit rest s)"
  unfolding pool_exit_def by (rule drain_within) (erule in_bounds_cong[rotated 3], simp_all)

lemma autoprocess_bounds:
  assumes "in_bounds a s" shows "in_bounds a (snd (autoprocess cfg a pa script s))"
proof -
  let ?s = "s\<lparr>count := 0\<rparr>"
  let ?m = "memory_limit (4 / 5) ?s"
  let ?s2 = "emit (LogInfo ''Processing analysis data'' []) (snd ?m)"
  let ?s2' = "emit (PoolCreate (parallel a) (maxtasksperchild a)) ?s2"
  let ?w = "while_loop cfg a script ?s2'"
  from assms have b0: "in_bounds a ?s" by (rule in_bounds_cong[rotated 3]) simp_all
  from memory_limit_sched[of "4/5" ?s] b0 have b1: "in_bounds a (snd ?m)"
    by (blast intro: in_bounds_cong)
  then have b2: "in_bounds a ?s2" by (rule in_bounds_cong[rotated 3]) simp_all
  then have b2': "in_bounds a ?s2'" by (rule in_bounds_cong[rotated 3]) simp_all
  then have b3: "in_bounds a (snd (snd ?w))" by (rule while_loop_within)
  show ?thesis
  proof (cases "fst ?m")
    case (Some e)
    then have "autoprocess cfg a pa script s = handlers False e (snd ?m)"
      by (cases ?m) (simp add: autoprocess_def Let_def)
    with b1 show ?thesis by (simp add: handlers_bounds)
  next
    case None
    show ?thesis
    proof (cases pa)
      case (Some e)
      with None have "autoprocess cfg a pa script s = handlers False e ?s2"
        by (cases ?m) (simp add: autoprocess_def Let_def)
      with b2 show ?thesis by (simp add: handlers_bounds)
    next
      case pn: None
      obtain le rest s3 where w: "?w = (le, rest, s3)" by (cases ?w)
      with b3 have b3': "in_bounds a s3" by simp
      then have b4: "in_bounds a (pool_exit rest s3)" by (rule pool_exit_bounds)
      from None pn w have "autoprocess cfg a pa script s =
          (case le of OutOfScript \<Rightarrow> (StillRunning, s3)
           | LoopDone \<Rightarrow> finally_block True Returned (pool_exit rest s3)
           | LoopRaised e \<Rightarrow> handlers True e (pool_exit rest s3))"
        by (cases ?m) (simp add: autoprocess_def Let_def split: loop_end.splits)
      with b3' b4 show ?thesis
        by (cases le) (simp_all add: handlers_bounds finally_block_bounds)
    qed
  qed
qed

lemma saturated_iteration:
  assumes "parallel a \<le> int (card (dom (pending_task_id_map s)))"
  shows "pending_task_id_map (snd (iteration cfg a env s)) = pending_task_id_map s \<and>
         pending_future_map (snd (iteration cfg a env s)) = pending_future_map s \<and>
         scheduled (new_events s (snd (iteration cfg a env s))) = [] \<and>
         job_store_reads (new_events s (snd (iteration cfg a env s))) = 0"
  using assms
  by (auto simp: iteration_def poll_def Let_def new_events_def split: sum.splits)

text \<open>
  Claim C3 (concurrency ceiling).  From the empty tables, whatever the script, the number
  of keys of \<open>pending_task_id_map\<close> never exceeds \<open>parallel\<close> (\<open>0\<close> when \<open>parallel\<close> is
  negative), in the loop and after \<open>autoprocess\<close> has drained the pool.  When the table
  holds \<open>parallel\<close> keys or more, lines 211 to 213 sleep five seconds and end the pass:
  no query of the job store, no dispatch, the tables unchanged.
\<close>

theorem concurrency_ceiling_respected:
  "card (dom (pending_task_id_map (snd (snd (while_loop cfg a script (init_sched w)))))) \<le> nat (parallel a) \<and>
   card (dom (pending_task_id_map (snd (autoprocess cfg a pa script (init_sched w))))) \<le> nat (parallel a) \<and>
   (parallel a \<le> int (card (dom (pending_task_id_map s))) \<longrightarrow>
      poll cfg a env s = (sleep_answer env, emit (Sleep 5) s) \<and>
      pending_task_id_map (snd (iteration cfg a env s)) = pending_task_id_map s \<and>
      scheduled (new_events s (snd (iteration cfg a env s))) = [] \<and>
      job_store_reads (new_events s (snd (iteration cfg a env s))) = 0)"
proof (intro conjI impI)
  have "in_bounds a (snd (snd (while_loop cfg a script (init_sched w))))"
    by (rule while_loop_within) (rule init_in_bounds)
  then show "card (dom (pending_task_id_map (snd (snd (while_loop cfg a script (init_sched w)))))) \<le> nat (parallel a)"
    by (simp add: in_bounds_def)
next
  have "in_bounds a (snd (autoprocess cfg a pa script (init_sched w)))"
    by (rule autoprocess_bounds) (rule init_in_bounds)
  then show "card (dom (pending_task_id_map (snd (autoprocess cfg a pa script (init_sched w))))) \<le> nat (parallel a)"
    by (simp add: in_bounds_def)
next
  assume "parallel a \<le> int (card (dom (pending_task_id_map s)))"
  then show "poll cfg a env s = (sleep_answer env, emit (Sleep 5) s)"
    by (simp add: poll_def)
next
  assume h: "parallel a \<le> int (card (dom (pending_task_id_map s)))"
  from saturated_iteration[OF h, of cfg env]
  show "pending_task_id_map (snd (iteration cfg a env s)) = pending_task_id_map s" by simp
next
  assume h: "parallel a \<le> int (card (dom (pending_task_id_map s)))"
  from saturated_iteration[OF h, of cfg env]
  show "scheduled (new_events s (snd (iteration cfg a env s))) = []" by simp
next
  assume h: "parallel a \<le> int (card (dom (pending_task_id_map s)))"
  from saturated_iteration[OF h, of cfg env]
  show "job_store_reads (new_events s (snd (iteration cfg a env s))) = 0" by simp
qed


theorem concurrency_ceiling_respected_witness:
  "parallel demo_args \<le> int (card (dom (pending_task_id_map full_state))) \<and>
   poll demo_config demo_args demo_env full_state = (None, emit (Sleep 5) full_state) \<and>
   scheduled (new_events full_state (snd (iteration demo_config demo_args demo_env full_state))) = [] \<and>
   card (dom (pending_task_id_map (snd (snd (while_loop demo_config demo_args
           [Iteration demo_env, Iteration demo_env, Iteration demo_env] (init_sched demo_world)))))) \<le> 2"
proof -
  have h: "parallel demo_args \<le> int (card (dom (pending_task_id_map full_state)))"
    by (simp add: demo_args_def full_state_def)
  have e: "sleep_answer demo_env = None" and p: "nat (parallel demo_args) = 2"
    by (simp_all add: demo_env_def demo_args_def)
  from concurrency_ceiling_respected[of demo_config demo_args
         "[Iteration demo_env, Iteration demo_env, Iteration demo_env]" demo_world None full_state demo_env]
       h e p
  show ?thesis by simp
qed

section \<open>The limit on the number of dispatched jobs\<close>

lemma while_loop_unbounded:
  "max_analysis_count cfg = 0 \<Longrightarrow> fst (while_loop cfg a script s) \<noteq> LoopDone"
proof (induction script arbitrary: s)
  case Nil
  then show ?case by (simp add: loop_cond_def)
next
  case (Cons st rest)
  show ?case
  proof (cases st)
    case (Iteration env)
    with Cons show ?thesis
      by (cases "iteration cfg a env s"; cases "fst (iteration cfg a env s)")
         (auto simp: loop_cond_def)
  next
    case (Completion f res dbr)
    with Cons show ?thesis by (simp add: loop_cond_def)
  qed
qed

lemma while_loop_stops:
  "0 < max_analysis_count cfg \<Longrightarrow> max_analysis_count cfg \<le> count s \<Longrightarrow>
   while_loop cfg a script s = (LoopDone, script, s)"
proof (cases script)
  case Nil
  assume "0 < max_analysis_count cfg" "max_analysis_count cfg \<le> count s"
  with Nil show ?thesis by (simp add: loop_cond_def)
next
  case (Cons st rest)
  assume "0 < max_analysis_count cfg" "max_analysis_count cfg \<le> count s"
  with Cons show ?thesis by (cases st) (simp_all add: loop_cond_def)
qed

lemma iteration_counted:
  "counted s (snd (iteration cfg a env s)) \<and>
   count (snd (iteration cfg a env s)) \<le> count s + 1"
proof -
  from iteration_cases[of s cfg a env]
  have "quiet s (snd (iteration cfg a env s)) \<or>
        (\<exists>i. dispatched i s (snd (iteration cfg a env s)))" by blast
  then show ?thesis
  proof
    assume q: "quiet s (snd (iteration cfg a env s))"
    from quiet_counted[OF q] q show ?thesis by (simp add: quiet_def)
  next
    assume "\<exists>i. dispatched i s (snd (iteration cfg a env s))"
    then obtain i where d: "dispatched i s (snd (iteration cfg a env s))" ..
    from dispatched_counted[OF d] d show ?thesis by (simp add: dispatched_def)
  qed
qed

lemma while_loop_counted:
  "counted s (snd (snd (while_loop cfg a script s))) \<and>
   (0 < max_analysis_count cfg \<and> count s \<le> max_analysis_count cfg \<longrightarrow>
      count (snd (snd (while_loop cfg a script s))) \<le> max_analysis_count cfg)"
proof (induction script arbitrary: s)
  case Nil
  then show ?case by simp
next
  case (Cons st rest)
  show ?case
  proof (cases "loop_cond (count s) (max_analysis_count cfg)")
    case False
    then show ?thesis by (cases st) simp_all
  next
    case True
    show ?thesis
    proof (cases st)
      case (Completion f res dbr)
      let ?s1 = "snd (processing_finished f res dbr s)"
      have c1: "counted s ?s1" by (rule pf_counted)
      from Cons.IH[of ?s1] c1 True Completion show ?thesis
        by (auto intro: counted_trans)
    next
      case (Iteration env)
      let ?s1 = "snd (iteration cfg a env s)"
      from iteration_counted[of s cfg a env]
      have c1: "counted s ?s1" and le: "count ?s1 \<le> count s + 1" by simp_all
      show ?thesis
      proof (cases "fst (iteration cfg a env s)")
        case (Some e)
        then have "while_loop cfg a (st # rest) s = (LoopRaised e, rest, ?s1)"
          using True Iteration by (cases "iteration cfg a env s") simp
        with c1 le True show ?thesis by (auto simp: loop_cond_def)
      next
        case None
        then have eq: "while_loop cfg a (st # rest) s = while_loop cfg a rest ?s1"
          using True Iteration by (cases "iteration cfg a env s") simp
        from Cons.IH[of ?s1] c1 have c2: "counted s (snd (snd (while_loop cfg a rest ?s1)))"
          by (blast intro: counted_trans)
        have "0 < max_analysis_count cfg \<and> count s \<le> max_analysis_count cfg \<longrightarrow>
              count ?s1 \<le> max_analysis_count cfg"
          using True le by (auto simp: loop_cond_def)
        with Cons.IH[of ?s1] c2 show ?thesis unfolding eq by auto
      qed
    qed
  qed
qed


lemma silent_counted:
  "(\<exists>es. trace s' = trace s @ es \<and> scheduled es = []) \<Longrightarrow> count s' = count s \<Longrightarrow> counted s s'"
  by (auto simp: counted_def)

lemma memory_limit_counted:
  "counted s (snd (memory_limit p s)) \<and> count (snd (memory_limit p s)) = count s"
  using memory_limit_sched[of p s] by (simp add: silent_counted)

lemma handlers_counted:
  "counted s (snd (handlers b e s)) \<and> count (snd (handlers b e s)) = count s"
  using handlers_sched[of b e s] by (simp add: silent_counted)

lemma finally_block_counted:
  "counted s (snd (finally_block b r s)) \<and> count (snd (finally_block b r s)) = count s"
  using finally_block_sched[of b r s] by (simp add: silent_counted)

lemma drain_counted: "counted s (drain rest s) \<and> count (drain rest s) = count s"
proof (induction rest arbitrary: s)
  case Nil
  then show ?case by simp
next
  case (Cons st rest)
  show ?case
  proof (cases st)
    case (Iteration env)
    with Cons show ?thesis by simp
  next
    case (Completion f res dbr)
    from Cons[of "snd (processing_finished f res dbr s)"] pf_counted[of s f res dbr] Completion
    show ?thesis by (auto intro: counted_trans)
  qed
qed

lemma pool_exit_counted: "counted s (pool_exit rest s) \<and> count (pool_exit rest s) = count s"
proof -
  have "counted s (emits [PoolClose, PoolJoin] s)" by (simp add: counted_def)
  with drain_counted[of "emits [PoolClose, PoolJoin] s" rest] show ?thesis
    by (auto simp: pool_exit_def intro: counted_trans)
qed

lemma autoprocess_counted:
  "\<exists>es. trace (snd (autoprocess cfg a pa script s)) = trace s @ es \<and>
        (0 < max_analysis_count cfg \<longrightarrow> int (length (scheduled es)) \<le> max_analysis_count cfg)"
proof -
  let ?s = "s\<lparr>count := 0\<rparr>"
  let ?m = "memory_limit (4 / 5) ?s"
  let ?s2 = "emit (LogInfo ''Processing analysis data'' []) (snd ?m)"
  let ?s2' = "emit (PoolCreate (parallel a) (maxtasksperchild a)) ?s2"
  let ?w = "while_loop cfg a script ?s2'"
  let ?r = "snd (autoprocess cfg a pa script s)"
  have goal: "counted ?s s' \<Longrightarrow>
      (0 < max_analysis_count cfg \<longrightarrow> count s' \<le> max_analysis_count cfg) \<Longrightarrow>
      \<exists>es. trace s' = trace s @ es \<and>
        (0 < max_analysis_count cfg \<longrightarrow> int (length (scheduled es)) \<le> max_analysis_count cfg)" for s'
    by (auto simp: counted_def)
  have c1: "counted ?s (snd ?m)" and n1: "count (snd ?m) = 0"
    using memory_limit_counted[of ?s "4/5"] by simp_all
  have "counted (snd ?m) ?s2" by (simp add: counted_def)
  with c1 have c2: "counted ?s ?s2" and n2: "count ?s2 = 0" using n1 by (auto intro: counted_trans)
  have "counted ?s2 ?s2'" by (simp add: counted_def)
  with c2 have c2': "counted ?s ?s2'" and n2': "count ?s2' = 0" using n2 by (auto intro: counted_trans)
  from while_loop_counted[of ?s2' cfg a script] c2' n2'
  have c3: "counted ?s (snd (snd ?w))"
    and n3: "0 < max_analysis_count cfg \<longrightarrow> count (snd (snd ?w)) \<le> max_analysis_count cfg"
    by (auto intro: counted_trans)
  show ?thesis
  proof (cases "fst ?m")
    case (Some e)
    then have eq: "autoprocess cfg a pa script s = handlers False e (snd ?m)"
      by (cases ?m) (simp add: autoprocess_def Let_def)
    from handlers_counted[of "snd ?m" False e] c1 n1
    have "counted ?s ?r" and "count ?r = 0" unfolding eq by (auto intro: counted_trans)
    then show ?thesis by (intro goal) simp_all
  next
    case None
    show ?thesis
    proof (cases pa)
      case (Some e)
      with None have eq: "autoprocess cfg a pa script s = handlers False e ?s2"
        by (cases ?m) (simp add: autoprocess_def Let_def)
      from handlers_counted[of ?s2 False e] c2 n2
      have "counted ?s ?r" and "count ?r = 0" unfolding eq by (auto intro: counted_trans)
      then show ?thesis by (intro goal) simp_all
    next
      case pn: None
      obtain le rest s3 where w: "?w = (le, rest, s3)" by (cases ?w)
      with c3 n3 have c3': "counted ?s s3"
        and n3': "0 < max_analysis_count cfg \<longrightarrow> count s3 \<le> max_analysis_count cfg" by simp_all
      from pool_exit_counted[of s3 rest] c3'
      have c4: "counted ?s (pool_exit rest s3)" and n4: "count (pool_exit rest s3) = count s3"
        by (auto intro: counted_trans)
      from None pn w have eq: "autoprocess cfg a pa script s =
          (case le of OutOfScript \<Rightarrow> (StillRunning, s3)
           | LoopDone \<Rightarrow> finally_block True Returned (pool_exit rest s3)
           | LoopRaised e \<Rightarrow> handlers True e (pool_exit rest s3))"
        by (cases ?m) (simp add: autoprocess_def Let_def split: loop_end.splits)
      have "counted ?s ?r \<and> count ?r = count s3"
      proof (cases le)
        case OutOfScript
        with eq c3' show ?thesis by simp
      next
        case LoopDone
        with eq finally_block_counted[of "pool_exit rest s3" True Returned] c4 n4
        show ?thesis by (auto intro: counted_trans)
      next
        case (LoopRaised e)
        with eq handlers_counted[of "pool_exit rest s3" True e] c4 n4
        show ?thesis by (auto intro: counted_trans)
      qed
      with n3' show ?thesis by (intro goal) simp_all
    qed
  qed
qed

text \<open>
  Claim C5 (dispatch-count limit).  With \<open>max_analysis_count = 0\<close> the loop condition
  holds for every count and the loop never leaves through it.  With a positive
  \<open>max_analysis_count\<close> a whole run of \<open>autoprocess\<close> hands at most that many jobs to the
  pool, and once \<open>count\<close> has reached it the loop ends without another pass.
\<close>

theorem dispatch_count_limit:
  "(max_analysis_count cfg = 0 \<longrightarrow>
      loop_cond c (max_analysis_count cfg) \<and> fst (while_loop cfg a script s) \<noteq> LoopDone) \<and>
   (0 < max_analysis_count cfg \<longrightarrow>
      (\<exists>es. trace (snd (autoprocess cfg a pa script s)) = trace s @ es \<and>
            int (length (scheduled es)) \<le> max_analysis_count cfg) \<and>
      (max_analysis_count cfg \<le> count s \<longrightarrow> while_loop cfg a script s = (LoopDone, script, s)))"
  using autoprocess_counted[of cfg a pa script s]
  by (auto simp: loop_cond_def while_loop_unbounded while_loop_stops)



theorem dispatch_count_limit_witness:
  "0 < max_analysis_count demo_config \<and> max_analysis_count demo_config \<le> count full_state \<and>
   max_analysis_count (demo_config\<lparr>max_analysis_count := 0\<rparr>) = 0 \<and>
   loop_cond 1000 0 \<and>
   fst (while_loop (demo_config\<lparr>max_analysis_count := 0\<rparr>) demo_args [Iteration demo_env] busy_state) \<noteq> LoopDone \<and>
   (\<exists>es. trace (snd (autoprocess demo_config demo_args None
                       [Iteration demo_env, Iteration demo_env, Iteration demo_env] (init_sched demo_world)))
          = trace (init_sched demo_world) @ es \<and> int (length (scheduled es)) \<le> 2) \<and>
   while_loop demo_config demo_args [Iteration demo_env] full_state = (LoopDone, [Iteration demo_env], full_state)"
proof -
  have h1: "0 < max_analysis_count demo_config" and h2: "max_analysis_count demo_config \<le> count full_state"
    and h3: "max_analysis_count (demo_config\<lparr>max_analysis_count := 0\<rparr>) = 0"
    and m: "max_analysis_count demo_config = 2"
    by (simp_all add: demo_config_def full_state_def)
  from dispatch_count_limit[of "demo_config\<lparr>max_analysis_count := 0\<rparr>" 1000 demo_args
        "[Iteration demo_env]" busy_state None] h3
  have a: "loop_cond 1000 0 \<and>
    fst (while_loop (demo_config\<lparr>max_analysis_count := 0\<rparr>) demo_args [Iteration demo_env] busy_state) \<noteq> LoopDone"
    by simp
  from dispatch_count_limit[of demo_config 0 demo_args
        "[Iteration demo_env, Iteration demo_env, Iteration demo_env]" "init_sched demo_world" None] h1 m
  have b: "\<exists>es. trace (snd (autoprocess demo_config demo_args None
                       [Iteration demo_env, Iteration demo_env, Iteration demo_env] (init_sched demo_world)))
          = trace (init_sched demo_world) @ es \<and> int (length (scheduled es)) \<le> 2"
    by simp
  from dispatch_count_limit[of demo_config 0 demo_args "[Iteration demo_env]" full_state None] h1 h2
  have c: "while_loop demo_config demo_args [Iteration demo_env] full_state = (LoopDone, [Iteration demo_env], full_state)"
    by blast
  from h1 h2 h3 a b c show ?thesis by blast
qed

section \<open>Backpressure from the disk\<close>

lemma disk_checks_append [simp]: "disk_checks (xs @ ys) = disk_checks xs + disk_checks ys"
  by (induction xs rule: disk_checks.induct) auto

lemma sleeps_append [simp]: "sleeps (xs @ ys) = sleeps xs @ sleeps ys"
  by (induction xs rule: sleeps.induct) auto

lemma job_store_reads_append [simp]:
  "job_store_reads (xs @ ys) = job_store_reads xs + job_store_reads ys"
  by (induction xs rule: job_store_reads.induct) auto

lemma no_disk_wait_append [simp]: "no_disk_wait (xs @ ys) \<longleftrightarrow> no_disk_wait xs \<and> no_disk_wait ys"
  by (auto simp: no_disk_wait_def)

lemma submit_no_disk_wait:
  "\<exists>es. trace (snd (submit cfg a env t cp s)) = trace s @ es \<and> no_disk_wait es"
  by (cases "schedule_answer env")
     (auto simp: submit_def gc_log_def unlink_origin_def emit_def emits_def Let_def no_disk_wait_def
           split: option.splits)

lemma dispatch_no_disk_wait:
  "\<exists>es. trace (snd (dispatch cfg a env t s)) = trace s @ es \<and> no_disk_wait es"
proof -
  let ?s1 = "emit (LogInfo ''Processing analysis data for Task #%d'' [PInt (tid t)]) s"
  let ?s2 = "emit (ViewSample (sample_id t)) ?s1"
  show ?thesis
  proof (cases "category t = ''url''")
    case True
    then have "dispatch cfg a env t s = submit cfg a env t None ?s1" by (simp add: dispatch_def Let_def)
    with submit_no_disk_wait[of cfg a env t None ?s1] show ?thesis by (auto simp: no_disk_wait_def)
  next
    case False
    show ?thesis
    proof (cases "sample_answer env")
      case (Inl e)
      with False show ?thesis by (simp add: dispatch_def Let_def no_disk_wait_def)
    next
      case (Inr so)
      show ?thesis
      proof (cases so)
        case None
        with False Inr show ?thesis by (simp add: dispatch_def Let_def no_disk_wait_def)
      next
        case (Some smp)
        with False Inr
        have "dispatch cfg a env t s = submit cfg a env t (Some (smp, copy_path_of cfg t smp)) ?s2"
          by (simp add: dispatch_def Let_def)
        with submit_no_disk_wait[of cfg a env t "Some (smp, copy_path_of cfg t smp)" ?s2]
        show ?thesis by (auto simp: no_disk_wait_def)
      qed
    qed
  qed
qed

lemma poll_no_disk_wait:
  "\<exists>es. trace (snd (poll cfg a env s)) = trace s @ es \<and> no_disk_wait es"
proof (cases "int (card (dom (pending_task_id_map s))) \<ge> parallel a")
  case True
  then show ?thesis by (simp add: poll_def no_disk_wait_def)
next
  case False
  let ?st = "if failed_processing a then TASK_FAILED_PROCESSING else TASK_COMPLETED"
  let ?s1 = "emit (ListTasks ?st (parallel a)) s"
  have c1: "\<And>tasks. candidate ?s1 tasks = candidate s tasks" by (simp add: candidate_def)
  show ?thesis
  proof (cases "tasks_answer env")
    case (Inl e)
    with False show ?thesis by (simp add: poll_def Let_def no_disk_wait_def)
  next
    case (Inr tasks)
    show ?thesis
    proof (cases "candidate s tasks")
      case None
      with False Inr c1 have "poll cfg a env s = (sleep_answer env, emit (Sleep 5) ?s1)"
        by (simp add: poll_def Let_def for_tasks_candidate)
      then show ?thesis by (simp add: no_disk_wait_def)
    next
      case (Some t)
      let ?d = "dispatch cfg a env t ?s1"
      from False Inr Some c1 have eq: "poll cfg a env s = (fst ?d, snd ?d)"
        by (cases "fst ?d") (simp_all add: poll_def Let_def for_tasks_candidate)
      from dispatch_no_disk_wait[of cfg a env t ?s1] show ?thesis
        unfolding eq by (auto simp: no_disk_wait_def)
    qed
  qed
qed

lemma submit_space_answer:
  "submit cfg a (env\<lparr>space_answer := sa\<rparr>) t cp s = submit cfg a env t cp s"
  by (simp add: submit_def)

lemma dispatch_space_answer:
  "dispatch cfg a (env\<lparr>space_answer := sa\<rparr>) t s = dispatch cfg a env t s"
  by (simp add: dispatch_def submit_space_answer Let_def cong: sum.case_cong option.case_cong)

lemma for_tasks_space_answer:
  "for_tasks cfg a (env\<lparr>space_answer := sa\<rparr>) tasks s = for_tasks cfg a env tasks s"
  by (induction tasks) (simp_all add: dispatch_space_answer)

lemma poll_space_answer:
  "poll cfg a (env\<lparr>space_answer := sa\<rparr>) s = poll cfg a env s"
  by (auto simp: poll_def for_tasks_space_answer Let_def split: sum.splits prod.splits option.splits)

text \<open>
  Claim C4 (disk backpressure).  When \<open>freespace\<close> is not zero and \<open>free_space_monitor\<close>
  reports that space is needed, the pass logs the error, sleeps sixty seconds and ends:
  the state is the old one with these three events added, so the job store was not
  asked and nothing was handed to the pool.  When \<open>freespace\<close> is zero the pass is the
  rest of the loop body alone: \<open>free_space_monitor\<close> is not called, its answer does not
  matter, and no sixty-second sleep occurs.
\<close>

theorem disk_backpressure:
  "(freespace cfg \<noteq> 0 \<and> space_answer env = Inr (True, avail) \<longrightarrow>
      iteration cfg a env s =
        (sleep_answer env,
         emits [FreeSpaceMonitor (path_join (cuckoo_root cfg) [''storage'', ''analyses'']),
                LogError ''Not enough free disk space! (Only %d MB!). You can change limits it in cuckoo.conf -> freespace''
                  [PInt avail],
                Sleep 60] s) \<and>
      job_store_reads (new_events s (snd (iteration cfg a env s))) = 0 \<and>
      scheduled (new_events s (snd (iteration cfg a env s))) = [] \<and>
      sleeps (new_events s (snd (iteration cfg a env s))) = [60]) \<and>
   (freespace cfg = 0 \<longrightarrow>
      iteration cfg a env s = poll cfg a env s \<and>
      iteration cfg a (env\<lparr>space_answer := sa\<rparr>) s = iteration cfg a env s \<and>
      no_disk_wait (new_events s (snd (iteration cfg a env s))))"
proof (intro conjI impI)
  assume h: "freespace cfg \<noteq> 0 \<and> space_answer env = Inr (True, avail)"
  then show eq: "iteration cfg a env s =
        (sleep_answer env,
         emits [FreeSpaceMonitor (path_join (cuckoo_root cfg) [''storage'', ''analyses'']),
                LogError ''Not enough free disk space! (Only %d MB!). You can change limits it in cuckoo.conf -> freespace''
                  [PInt avail],
                Sleep 60] s)"
    by (simp add: iteration_def Let_def emit_def emits_def)
  show "job_store_reads (new_events s (snd (iteration cfg a env s))) = 0"
    and "scheduled (new_events s (snd (iteration cfg a env s))) = []"
    and "sleeps (new_events s (snd (iteration cfg a env s))) = [60]"
    unfolding eq by (simp_all add: new_events_def)
next
  assume z: "freespace cfg = 0"
  then show eq: "iteration cfg a env s = poll cfg a env s" by (simp add: iteration_def)
  from z show "iteration cfg a (env\<lparr>space_answer := sa\<rparr>) s = iteration cfg a env s"
    by (simp add: iteration_def poll_space_answer)
  from poll_no_disk_wait[of cfg a env s]
  show "no_disk_wait (new_events s (snd (iteration cfg a env s)))"
    unfolding eq by (auto simp: new_events_def)
qed


theorem disk_backpressure_witness:
  "freespace demo_config \<noteq> 0 \<and>
   space_answer (demo_env\<lparr>space_answer := Inr (True, 12)\<rparr>) = Inr (True, 12) \<and>
   trace (snd (iteration demo_config demo_args (demo_env\<lparr>space_answer := Inr (True, 12)\<rparr>) busy_state)) =
     [FreeSpaceMonitor ''/opt/CAPEv2/storage/analyses'',
      LogError ''Not enough free disk space! (Only %d MB!). You can change limits it in cuckoo.conf -> freespace''
        [PInt 12],
      Sleep 60] \<and>
   sleeps (new_events busy_state
            (snd (iteration demo_config demo_args (demo_env\<lparr>space_answer := Inr (True, 12)\<rparr>) busy_state))) = [60] \<and>
   freespace (demo_config\<lparr>freespace := 0\<rparr>) = 0 \<and>
   no_disk_wait (new_events busy_state
            (snd (iteration (demo_config\<lparr>freespace := 0\<rparr>) demo_args
                    (demo_env\<lparr>space_answer := Inr (True, 12)\<rparr>) busy_state)))"
proof -
  let ?env = "demo_env\<lparr>space_answer := Inr (True, 12)\<rparr>"
  have h1: "freespace demo_config \<noteq> 0 \<and> space_answer ?env = Inr (True, 12)"
    and h2: "freespace (demo_config\<lparr>freespace := 0\<rparr>) = 0"
    and r: "cuckoo_root demo_config = ''/opt/CAPEv2''" and t: "trace busy_state = []"
    by (simp_all add: demo_defs)
  from disk_backpressure[of demo_config ?env 12 demo_args busy_state] h1 r t
  have a: "trace (snd (iteration demo_config demo_args ?env busy_state)) =
     [FreeSpaceMonitor ''/opt/CAPEv2/storage/analyses'',
      LogError ''Not enough free disk space! (Only %d MB!). You can change limits it in cuckoo.conf -> freespace''
        [PInt 12],
      Sleep 60]"
    and b: "sleeps (new_events busy_state (snd (iteration demo_config demo_args ?env busy_state))) = [60]"
    by (simp_all add: path_join_def join2_def)
  from disk_backpressure[of "demo_config\<lparr>freespace := 0\<rparr>" ?env 12 demo_args busy_state] h2
  have c: "no_disk_wait (new_events busy_state
            (snd (iteration (demo_config\<lparr>freespace := 0\<rparr>) demo_args ?env busy_state)))"
    by blast
  from h1 h2 a b c show ?thesis by blast
qed

section \<open>The origin copy of the binary is deleted at dispatch\<close>

lemma for_tasks_trace_candidate:
  "candidate s tasks = Some t \<Longrightarrow>
   for_tasks cfg a env tasks s = (fst (dispatch cfg a env t s), True, snd (dispatch cfg a env t s))"
  by (simp add: for_tasks_candidate)

lemma dispatch_file_task:
  assumes "category t \<noteq> ''url''" and "sample_answer env = Inr (Some smp)" and "schedule_answer env = None"
    and "delete_bin_copy cfg" and "copy_origin_path_of cfg smp \<in> fs s"
  shows "fst (dispatch cfg a env t s) = None"
    and "fs (snd (dispatch cfg a env t s)) = fs s - {copy_origin_path_of cfg smp}"
    and "trace (snd (dispatch cfg a env t s)) = trace s @
          [LogInfo ''Processing analysis data for Task #%d'' [PInt (tid t)], ViewSample (sample_id t)] @
          (if memory_debugging a then [GcCollect, LogInfo ''[%d] (before) GC object counts: %d, %d'' [PInt (tid t)]] else []) @
          [Schedule (next_future s) (tid t) (target t) (Some (copy_path_of cfg t smp))
             (memory_debugging a) (processing_timeout a),
           AddDoneCallback (next_future s)] @
          (if memory_debugging a then [GcCollect, LogInfo ''[%d] (after) GC object counts: %d, %d'' [PInt (tid t)]] else []) @
          [Unlink (copy_origin_path_of cfg smp)]"
    and "pending_task_id_map (snd (dispatch cfg a env t s)) = (pending_task_id_map s)(tid t \<mapsto> next_future s)"
proof -
  let ?s2 = "emit (ViewSample (sample_id t))
              (emit (LogInfo ''Processing analysis data for Task #%d'' [PInt (tid t)]) s)"
  from assms have eq: "dispatch cfg a env t s = submit cfg a env t (Some (smp, copy_path_of cfg t smp)) ?s2"
    by (simp add: dispatch_def Let_def)
  show "fst (dispatch cfg a env t s) = None"
    unfolding eq using assms(3) by (simp add: submit_def Let_def)
  show "fs (snd (dispatch cfg a env t s)) = fs s - {copy_origin_path_of cfg smp}"
    unfolding eq using assms(3,4,5)
    by (simp add: submit_def unlink_origin_def gc_log_def Let_def emit_def emits_def)
  show "trace (snd (dispatch cfg a env t s)) = trace s @
          [LogInfo ''Processing analysis data for Task #%d'' [PInt (tid t)], ViewSample (sample_id t)] @
          (if memory_debugging a then [GcCollect, LogInfo ''[%d] (before) GC object counts: %d, %d'' [PInt (tid t)]] else []) @
          [Schedule (next_future s) (tid t) (target t) (Some (copy_path_of cfg t smp))
             (memory_debugging a) (processing_timeout a),
           AddDoneCallback (next_future s)] @
          (if memory_debugging a then [GcCollect, LogInfo ''[%d] (after) GC object counts: %d, %d'' [PInt (tid t)]] else []) @
          [Unlink (copy_origin_path_of cfg smp)]"
    unfolding eq using assms(3,4,5)
    by (cases "memory_debugging a")
       (simp_all add: submit_def unlink_origin_def gc_log_def Let_def emit_def emits_def)
  show "pending_task_id_map (snd (dispatch cfg a env t s)) = (pending_task_id_map s)(tid t \<mapsto> next_future s)"
    unfolding eq using assms(3,4,5)
    by (simp add: submit_def unlink_origin_def gc_log_def Let_def emit_def emits_def)
qed


lemma pf_fs [simp]: "fs (snd (processing_finished f res dbr s)) = fs s"
proof -
  have "fs (snd (future_result v res dbr s)) = fs s" for v
    by (auto simp: future_result_def mark_failed_def split: sum.splits)
  with del_entries_shape show ?thesis by (simp add: pf_unfold Let_def)
qed

lemma iteration_reaches_dispatch:
  assumes "freespace cfg = 0 \<or> (\<exists>av. space_answer env = Inr (False, av))"
    and "int (card (dom (pending_task_id_map s))) < parallel a"
    and "tasks_answer env = Inr tasks" and "candidate s tasks = Some t"
  shows "\<exists>pre. iteration cfg a env s = dispatch cfg a env t (emits pre s)"
proof -
  let ?st = "if failed_processing a then TASK_FAILED_PROCESSING else TASK_COMPLETED"
  have p: "poll cfg a env s1 = dispatch cfg a env t (emit (ListTasks ?st (parallel a)) s1)"
    if "pending_task_id_map s1 = pending_task_id_map s" for s1
  proof -
    let ?s1 = "emit (ListTasks ?st (parallel a)) s1"
    let ?d = "dispatch cfg a env t ?s1"
    from that assms(4) have c: "candidate ?s1 tasks = Some t" by (simp add: candidate_def)
    from that assms(2) have "\<not> parallel a \<le> int (card (dom (pending_task_id_map s1)))" by simp
    with assms(3) c have "poll cfg a env s1 = (fst ?d, snd ?d)"
      by (cases "fst ?d") (simp_all add: poll_def Let_def for_tasks_candidate)
    then show ?thesis by simp
  qed
  show ?thesis
  proof (cases "freespace cfg = 0")
    case True
    then have "iteration cfg a env s = poll cfg a env s" by (simp add: iteration_def)
    with p[of s] have "iteration cfg a env s = dispatch cfg a env t (emits [ListTasks ?st (parallel a)] s)"
      by (simp add: emit_def emits_def)
    then show ?thesis ..
  next
    case False
    with assms(1) obtain av where "space_answer env = Inr (False, av)" by blast
    with False have "iteration cfg a env s =
        poll cfg a env (emit (FreeSpaceMonitor (path_join (cuckoo_root cfg) [''storage'', ''analyses''])) s)"
      by (simp add: iteration_def Let_def)
    with p[of "emit (FreeSpaceMonitor (path_join (cuckoo_root cfg) [''storage'', ''analyses''])) s"]
    have "iteration cfg a env s =
        dispatch cfg a env t (emits [FreeSpaceMonitor (path_join (cuckoo_root cfg) [''storage'', ''analyses'']),
                                     ListTasks ?st (parallel a)] s)"
      by (simp add: emit_def emits_def)
    then show ?thesis ..
  qed
qed

text \<open>
  Claim C10 (the origin copy is deleted at dispatch).  In a pass that hands a task which
  is no URL to the pool, with \<open>delete_bin_copy\<close> set and the file
  \<open>storage/binaries/<sha256>\<close> present, the pass itself unlinks that file: the
  \<open>Unlink\<close> is the last event of the pass and follows \<open>pool.schedule\<close> and
  \<open>add_done_callback\<close> (and the optional debug log) directly; the job is in the table
  when the pass ends; the path is built from the sample's hash and not from the task
  id; and no later completion of any future, whatever its outcome, brings the file back.
\<close>

theorem origin_copy_deleted_at_dispatch:
  assumes "freespace cfg = 0 \<or> (\<exists>av. space_answer env = Inr (False, av))"
    and "int (card (dom (pending_task_id_map s))) < parallel a"
    and "tasks_answer env = Inr tasks" and "candidate s tasks = Some t"
    and "category t \<noteq> ''url''" and "sample_answer env = Inr (Some smp)" and "schedule_answer env = None"
    and "delete_bin_copy cfg" and "copy_origin_path_of cfg smp \<in> fs s"
  shows "fst (iteration cfg a env s) = None \<and>
     fs (snd (iteration cfg a env s)) = fs s - {copy_origin_path_of cfg smp} \<and>
     (\<exists>pre. new_events s (snd (iteration cfg a env s)) =
        pre @
        [Schedule (next_future s) (tid t) (target t) (Some (copy_path_of cfg t smp))
           (memory_debugging a) (processing_timeout a),
         AddDoneCallback (next_future s)] @
        (if memory_debugging a
         then [GcCollect, LogInfo ''[%d] (after) GC object counts: %d, %d'' [PInt (tid t)]] else []) @
        [Unlink (copy_origin_path_of cfg smp)]) \<and>
     pending_task_id_map (snd (iteration cfg a env s)) (tid t) = Some (next_future s) \<and>
     copy_origin_path_of cfg smp = path_join (cuckoo_root cfg) [''storage'', ''binaries'', sha256 smp] \<and>
     (\<forall>f res dbr. copy_origin_path_of cfg smp \<notin>
        fs (snd (processing_finished f res dbr (snd (iteration cfg a env s)))))"
proof -
  from iteration_reaches_dispatch[OF assms(1-4)] obtain pre
    where eq: "iteration cfg a env s = dispatch cfg a env t (emits pre s)" ..
  let ?s0 = "emits pre s"
  have ex: "copy_origin_path_of cfg smp \<in> fs ?s0" using assms(9) by simp
  note d = dispatch_file_task[OF assms(5-8) ex, where a = a]
  have 1: "fst (iteration cfg a env s) = None" unfolding eq by (rule d(1))
  have 2: "fs (snd (iteration cfg a env s)) = fs s - {copy_origin_path_of cfg smp}"
    unfolding eq d(2) by simp
  have 3: "\<exists>pre. new_events s (snd (iteration cfg a env s)) =
        pre @
        [Schedule (next_future s) (tid t) (target t) (Some (copy_path_of cfg t smp))
           (memory_debugging a) (processing_timeout a),
         AddDoneCallback (next_future s)] @
        (if memory_debugging a
         then [GcCollect, LogInfo ''[%d] (after) GC object counts: %d, %d'' [PInt (tid t)]] else []) @
        [Unlink (copy_origin_path_of cfg smp)]"
    unfolding eq new_events_def d(3) by (cases "memory_debugging a") simp_all
  have 4: "pending_task_id_map (snd (iteration cfg a env s)) (tid t) = Some (next_future s)"
    unfolding eq d(4) by simp
  have 5: "copy_origin_path_of cfg smp = path_join (cuckoo_root cfg) [''storage'', ''binaries'', sha256 smp]"
    by (simp add: copy_origin_path_of_def)
  have 6: "\<forall>f res dbr. copy_origin_path_of cfg smp \<notin>
        fs (snd (processing_finished f res dbr (snd (iteration cfg a env s))))"
    using 2 by simp
  from 1 2 3 4 5 6 show ?thesis by blast
qed


theorem origin_copy_deleted_at_dispatch_witness:
  "candidate busy_state [task_A, task_B] = Some task_B \<and>
   category task_B \<noteq> ''url'' \<and> delete_bin_copy demo_config \<and>
   copy_origin_path_of demo_config \<lparr>sha256 = ''abc''\<rparr> = ''/opt/CAPEv2/storage/binaries/abc'' \<and>
   ''/opt/CAPEv2/storage/binaries/abc'' \<in> fs busy_state \<and>
   fst (iteration demo_config demo_args demo_env busy_state) = None \<and>
   ''/opt/CAPEv2/storage/binaries/abc'' \<notin> fs (snd (iteration demo_config demo_args demo_env busy_state)) \<and>
   pending_task_id_map (snd (iteration demo_config demo_args demo_env busy_state)) 2 = Some 1 \<and>
   ''/opt/CAPEv2/storage/binaries/abc'' \<notin>
     fs (snd (processing_finished 1 (Inl FuturesTimeoutError) None
               (snd (iteration demo_config demo_args demo_env busy_state))))"
proof -
  let ?smp = "\<lparr>sha256 = ''abc''\<rparr>"
  have h1: "freespace demo_config = 0 \<or> (\<exists>av. space_answer demo_env = Inr (False, av))"
    and h2: "int (card (dom (pending_task_id_map busy_state))) < parallel demo_args"
    and h3: "tasks_answer demo_env = Inr [task_A, task_B]"
    and h4: "candidate busy_state [task_A, task_B] = Some task_B"
    and h5: "category task_B \<noteq> ''url''"
    and h6: "sample_answer demo_env = Inr (Some ?smp)"
    and h7: "schedule_answer demo_env = None"
    and h8: "delete_bin_copy demo_config"
    and p: "copy_origin_path_of demo_config ?smp = ''/opt/CAPEv2/storage/binaries/abc''"
    and n: "next_future busy_state = 1" and i: "tid task_B = 2"
    by (simp_all add: demo_defs candidate_def copy_origin_path_of_def path_join_def join2_def)
  have h9: "copy_origin_path_of demo_config ?smp \<in> fs busy_state"
    unfolding p by (simp add: demo_defs)
  from origin_copy_deleted_at_dispatch[OF h1 h2 h3 h4 h5 h6 h7 h8 h9] h4 h5 h8 h9
  show ?thesis unfolding p n i by simp
qed

section \<open>The done-callback: one removal, at most one write\<close>

lemma status_writes_append [simp]: "status_writes (xs @ ys) = status_writes xs @ status_writes ys"
  by (induction xs rule: status_writes.induct) auto

lemma future_result_ok:
  assumes "case res of Inr v \<Rightarrow> True | Inl e \<Rightarrow> is_Exception e"
  shows "fst (future_result v res None s) = None"
    and "pending_future_map (snd (future_result v res None s)) = pending_future_map s"
    and "pending_task_id_map (snd (future_result v res None s)) = pending_task_id_map s"
    and "status_writes (new_events s (snd (future_result v res None s))) =
           (case res of Inr r \<Rightarrow> [] | Inl e \<Rightarrow> [(got v, TASK_FAILED_PROCESSING)])"
  using assms
  by (auto simp: future_result_def mark_failed_def new_events_def split: sum.splits)

text \<open>
  Claim C2 (exactly-once completion bookkeeping).  For a future that is in the tables
  (future \<open>f\<close> for job \<open>i\<close>), resolved with a result or with an exception (time-out,
  expired worker, any other \<open>Exception\<close>), and a job store that takes the write, the
  callback returns normally; it has removed exactly the entry of \<open>f\<close> from
  \<open>pending_future_map\<close> and exactly the entry of \<open>i\<close> from \<open>pending_task_id_map\<close>; it
  has written \<open>TASK_FAILED_PROCESSING\<close> for \<open>i\<close> once when the future raised and nothing
  when it returned a result; and a second call for the same future removes nothing more
  (\<open>del\<close> raises \<open>KeyError\<close>).
\<close>

theorem completion_bookkeeping_exactly_once:
  assumes "pending_future_map s f = Some i" and "pending_task_id_map s i = Some g"
    and "case res of Inr v \<Rightarrow> True | Inl e \<Rightarrow> is_Exception e"
  shows "fst (processing_finished f res None s) = None \<and>
     pending_future_map (snd (processing_finished f res None s)) = (pending_future_map s)(f := None) \<and>
     pending_task_id_map (snd (processing_finished f res None s)) = (pending_task_id_map s)(i := None) \<and>
     status_writes (new_events s (snd (processing_finished f res None s))) =
       (case res of Inr r \<Rightarrow> [] | Inl e \<Rightarrow> [(PInt i, TASK_FAILED_PROCESSING)]) \<and>
     fst (processing_finished f res' dbr' (snd (processing_finished f res None s))) \<noteq> None \<and>
     pending_future_map (snd (processing_finished f res' dbr' (snd (processing_finished f res None s))))
       = (pending_future_map s)(f := None) \<and>
     pending_task_id_map (snd (processing_finished f res' dbr' (snd (processing_finished f res None s))))
       = (pending_task_id_map s)(i := None)"
proof -
  let ?s1 = "snd (future_result (Some i) res None s)"
  note fr = future_result_ok[OF assms(3), where v = "Some i" and s = s]
  have tr1: "\<exists>es. trace ?s1 = trace s @ es"
    using future_result_quiet[of s "Some i" res None] by (auto simp: quiet_def)
  have de: "del_entries f (Some i) ?s1 =
      (None, ?s1\<lparr>pending_future_map := (pending_future_map s)(f := None),
                 pending_task_id_map := (pending_task_id_map s)(i := None)\<rparr>)"
    using assms(1,2) fr(2,3) by (simp add: del_entries_def Let_def)
  have eq: "processing_finished f res None s =
      (None, ?s1\<lparr>pending_future_map := (pending_future_map s)(f := None),
                 pending_task_id_map := (pending_task_id_map s)(i := None)\<rparr>)"
    using assms(1) fr(1) de
    by (cases "future_result (Some i) res None s") (simp add: processing_finished_def Let_def)
  let ?s2 = "snd (processing_finished f res None s)"
  have 1: "fst (processing_finished f res None s) = None" by (simp add: eq)
  have 2: "pending_future_map ?s2 = (pending_future_map s)(f := None)" by (simp add: eq)
  have 3: "pending_task_id_map ?s2 = (pending_task_id_map s)(i := None)" by (simp add: eq)
  have 4: "status_writes (new_events s ?s2) =
       (case res of Inr r \<Rightarrow> [] | Inl e \<Rightarrow> [(PInt i, TASK_FAILED_PROCESSING)])"
  proof -
    have "new_events s ?s2 = new_events s ?s1" by (simp add: eq new_events_def)
    with fr(4) show ?thesis by (simp add: got_def split: sum.splits)
  qed
  have gone: "pending_future_map ?s2 f = None" by (simp add: 2)
  let ?fr = "future_result None res' dbr' ?s2"
  have q: "quiet ?s2 (snd ?fr)" by (rule future_result_quiet)
  then have gone': "pending_future_map (snd ?fr) f = None" using gone by (simp add: quiet_def)
  have again: "processing_finished f res' dbr' ?s2 =
      (if fst ?fr = None then (Some KeyError, snd ?fr) else ?fr)"
    using gone gone'
    by (cases ?fr; cases "fst ?fr") (simp_all add: processing_finished_def del_entries_def Let_def)
  have 5: "fst (processing_finished f res' dbr' ?s2) \<noteq> None" unfolding again by simp
  have 6: "pending_future_map (snd (processing_finished f res' dbr' ?s2)) = (pending_future_map s)(f := None)"
    unfolding again using q 2 by (simp add: quiet_def)
  have 7: "pending_task_id_map (snd (processing_finished f res' dbr' ?s2)) = (pending_task_id_map s)(i := None)"
    unfolding again using q 3 by (simp add: quiet_def)
  from 1 2 3 4 5 6 7 show ?thesis by blast
qed

theorem completion_bookkeeping_exactly_once_witness:
  "pending_future_map full_state 1 = Some 2 \<and> pending_task_id_map full_state 2 = Some 1 \<and>
   is_Exception FuturesTimeoutError \<and>
   fst (processing_finished 1 (Inl FuturesTimeoutError) None full_state) = None \<and>
   pending_future_map (snd (processing_finished 1 (Inl FuturesTimeoutError) None full_state)) = [0 \<mapsto> 1] \<and>
   pending_task_id_map (snd (processing_finished 1 (Inl FuturesTimeoutError) None full_state)) = [1 \<mapsto> 0] \<and>
   status_writes (new_events full_state (snd (processing_finished 1 (Inl FuturesTimeoutError) None full_state)))
     = [(PInt 2, TASK_FAILED_PROCESSING)] \<and>
   status_writes (new_events full_state (snd (processing_finished 1 (Inr PNone) None full_state))) = []"
proof -
  have h1: "pending_future_map full_state 1 = Some 2" and h2: "pending_task_id_map full_state 2 = Some 1"
    and m1: "(pending_future_map full_state)(1 := None) = [0 \<mapsto> 1]"
    and m2: "(pending_task_id_map full_state)(2 := None) = [1 \<mapsto> 0]"
    by (auto simp: full_state_def init_sched_def world.extend_def)
  have h3: "case (Inl FuturesTimeoutError :: exn + pyval) of Inr v \<Rightarrow> True | Inl e \<Rightarrow> is_Exception e"
    and h3': "case (Inr PNone :: exn + pyval) of Inr v \<Rightarrow> True | Inl e \<Rightarrow> is_Exception e"
    by simp_all
  from completion_bookkeeping_exactly_once[OF h1 h2 h3] completion_bookkeeping_exactly_once[OF h1 h2 h3']
       h1 h2 m1 m2
  show ?thesis by simp
qed

section \<open>The order of the stages in \<open>process\<close>\<close>

lemma pipeline_append [simp]: "pipeline (xs @ ys) = pipeline xs @ pipeline ys"
  by (induction xs rule: pipeline.induct) auto

lemma gc_log_trace:
  "\<exists>es. trace (gc_log dbg fmt i w) = trace w @ es \<and> pipeline es = [] \<and> status_writes es = []"
  by (simp add: gc_log_def emits_def)

lemma gc_log_obs [simp]:
  "pipeline (trace (gc_log dbg fmt i w)) = pipeline (trace w)"
  "status_writes (trace (gc_log dbg fmt i w)) = status_writes (trace w)"
  "fs (gc_log dbg fmt i w) = fs w"
  by (simp_all add: gc_log_def emits_def)

lemma cleanup_obs:
  "pipeline (trace (snd (cleanup cfg tgt cp w))) = pipeline (trace w)"
  "status_writes (trace (snd (cleanup cfg tgt cp w))) = status_writes (trace w)"
  by (auto simp: cleanup_def unlink_if_exists_def emit_def split: option.splits)

lemma cleanup_ok:
  "delete_original cfg \<longrightarrow> tgt \<noteq> None \<Longrightarrow> fst (cleanup cfg tgt cp w) = None"
  by (auto simp: cleanup_def split: option.splits)

lemma report_stage_ok:
  assumes "run_reporting pl (to_dict t) results (if auto \<or> capeproc then False else rep) = Inr r3"
    and "set_status_answer pl = None" and "auto \<and> delete_original cfg \<longrightarrow> tgt \<noteq> None"
  shows "fst (report_stage pl cfg tgt cp t task_id results rep auto capeproc w) = None"
    and "pipeline (trace (snd (report_stage pl cfg tgt cp t task_id results rep auto capeproc w))) =
           pipeline (trace w) @
           [RunReporting (to_dict t) results (if auto \<or> capeproc then False else rep),
            SetStatus task_id TASK_REPORTED]"
  using assms
  by (auto simp: report_stage_def Let_def cleanup_ok cleanup_obs)

lemma process_not_reporting:
  "status_writes (trace (snd (process pl cfg tgt cp tsk False auto capeproc dbg w))) = status_writes (trace w)"
  by (auto simp: process_def Let_def split: option.splits sum.splits)


text \<open>
  Claim C6 (stage order and postcondition of \<open>process\<close>).  When the stages do not raise,
  \<open>process\<close> returns normally and its calls to the plugins and to the job store are, in
  this order: \<open>RunProcessing\<close> on the container seeded with the three empty statistics
  lists, \<open>RunSignatures\<close> on the container as processing left it, and, only when a report
  is requested, \<open>RunReporting\<close> on the container as the signatures left it, followed by
  \<open>set_status(task_id, TASK_REPORTED)\<close>.  Without a report request \<open>process\<close> never
  writes to the job store, whatever the stages do.
\<close>

theorem process_stage_order:
  assumes "tsk = Some t"
    and "dict_get (py_or (to_dict t) (PDict [])) ''id'' = Inr v"
    and "run_processing pl (py_or (to_dict t) (PDict [])) seed_results = Inr r1"
    and "run_signatures pl (py_or (to_dict t) (PDict [])) r1 = Inr r2"
    and "rep \<longrightarrow> run_reporting pl (to_dict t) r2 (if auto \<or> capeproc then False else rep) = Inr r3 \<and>
               set_status_answer pl = None \<and> (auto \<and> delete_original cfg \<longrightarrow> tgt \<noteq> None)"
  shows "fst (process pl cfg tgt cp tsk rep auto capeproc dbg w) = None \<and>
     pipeline (trace (snd (process pl cfg tgt cp tsk rep auto capeproc dbg w))) =
       pipeline (trace w) @
       [RunProcessing (py_or (to_dict t) (PDict [])) seed_results,
        RunSignatures (py_or (to_dict t) (PDict [])) r1] @
       (if rep
        then [RunReporting (to_dict t) r2 (if auto \<or> capeproc then False else rep),
              SetStatus (py_or v (PInt 0)) TASK_REPORTED]
        else []) \<and>
     seed_results =
       PDict [(''statistics'',
               PDict [(''processing'', PList []), (''signatures'', PList []), (''reporting'', PList [])])] \<and>
     status_writes (trace (snd (process pl' cfg tgt cp tsk' False auto capeproc dbg w))) =
       status_writes (trace w)"
proof -
  have 3: "seed_results =
       PDict [(''statistics'',
               PDict [(''processing'', PList []), (''signatures'', PList []), (''reporting'', PList [])])]"
    by (simp add: seed_results_def)
  have 4: "status_writes (trace (snd (process pl' cfg tgt cp tsk' False auto capeproc dbg w))) =
       status_writes (trace w)"
    by (rule process_not_reporting)
  have "fst (process pl cfg tgt cp tsk rep auto capeproc dbg w) = None \<and>
     pipeline (trace (snd (process pl cfg tgt cp tsk rep auto capeproc dbg w))) =
       pipeline (trace w) @
       [RunProcessing (py_or (to_dict t) (PDict [])) seed_results,
        RunSignatures (py_or (to_dict t) (PDict [])) r1] @
       (if rep
        then [RunReporting (to_dict t) r2 (if auto \<or> capeproc then False else rep),
              SetStatus (py_or v (PInt 0)) TASK_REPORTED]
        else [])"
  proof (cases rep)
  case False
  with assms(1-4) show ?thesis
    by (simp add: process_def Let_def emit_def)
next
  case True
  let ?td = "py_or (to_dict t) (PDict [])"
  let ?tid = "py_or v (PInt 0)"
  let ?w6 = "gc_log dbg ''[%s] (4) GC object counts: %d, %d'' ?tid
              (emit (RunSignatures ?td r1)
                (gc_log dbg ''[%s] (3) GC object counts: %d, %d'' ?tid
                  (emit (RunProcessing ?td seed_results)
                    (gc_log dbg ''[%s] (2) GC object counts: %d, %d'' ?tid
                      (gc_log dbg ''[%s] (1) GC object counts: %d, %d'' ?tid w)))))"
  let ?rs = "report_stage pl cfg tgt cp t ?tid r2 rep auto capeproc ?w6"
  from True assms(5)
  have a: "run_reporting pl (to_dict t) r2 (if auto \<or> capeproc then False else rep) = Inr r3"
    and b: "set_status_answer pl = None" and c: "auto \<and> delete_original cfg \<longrightarrow> tgt \<noteq> None"
    by simp_all
  note rs = report_stage_ok[OF a b c, where cp = cp and task_id = ?tid and w = ?w6]
  have p6: "pipeline (trace ?w6) = pipeline (trace w) @ [RunProcessing ?td seed_results, RunSignatures ?td r1]"
    by (simp add: emit_def)
  have eq: "process pl cfg tgt cp tsk rep auto capeproc dbg w =
      (None, gc_log dbg ''[%s] (5) GC object counts: %d, %d'' ?tid (snd ?rs))"
    using assms(1-4) True rs(1)
    by (cases ?rs) (simp add: process_def Let_def)
  have 1: "fst (process pl cfg tgt cp tsk rep auto capeproc dbg w) = None" by (simp add: eq)
  have 2: "pipeline (trace (snd (process pl cfg tgt cp tsk rep auto capeproc dbg w))) =
       pipeline (trace w) @
       [RunProcessing ?td seed_results, RunSignatures ?td r1] @
       [RunReporting (to_dict t) r2 (if auto \<or> capeproc then False else rep),
        SetStatus ?tid TASK_REPORTED]"
    unfolding eq using rs(2) p6 by simp
  from 1 2 True show ?thesis by simp
  qed
  with 3 4 show ?thesis by blast
qed


theorem process_stage_order_witness:
  "dict_get (py_or (to_dict task_A) (PDict [])) ''id'' = Inr (PInt 1) \<and>
   run_processing demo_collab (PDict [(''id'', PInt 1)]) seed_results = Inr (PList [PStr ''processing'', seed_results]) \<and>
   fst (process demo_collab demo_config (Some ''/tmp/a.exe'') None (Some task_A) True True False False demo_world) = None \<and>
   pipeline (trace (snd (process demo_collab demo_config (Some ''/tmp/a.exe'') None (Some task_A)
                           True True False False demo_world))) =
     [RunProcessing (PDict [(''id'', PInt 1)]) seed_results,
      RunSignatures (PDict [(''id'', PInt 1)]) (PList [PStr ''processing'', seed_results]),
      RunReporting (PDict [(''id'', PInt 1)])
        (PList [PStr ''signatures'', PList [PStr ''processing'', seed_results]]) False,
      SetStatus (PInt 1) TASK_REPORTED] \<and>
   status_writes (trace (snd (process demo_collab demo_config (Some ''/tmp/a.exe'') None (Some task_A)
                           False True False False demo_world))) = []"
proof -
  let ?td = "PDict [(''id'', PInt 1)]"
  let ?r1 = "PList [PStr ''processing'', seed_results]"
  let ?r2 = "PList [PStr ''signatures'', ?r1]"
  have td: "py_or (to_dict task_A) (PDict []) = ?td" and td': "to_dict task_A = ?td"
    by (simp_all add: task_A_def py_or_def)
  have h2: "dict_get (py_or (to_dict task_A) (PDict [])) ''id'' = Inr (PInt 1)"
    by (simp add: td dict_get_def)
  have h3: "run_processing demo_collab (py_or (to_dict task_A) (PDict [])) seed_results = Inr ?r1"
    and h4: "run_signatures demo_collab (py_or (to_dict task_A) (PDict [])) ?r1 = Inr ?r2"
    and h5: "True \<longrightarrow> run_reporting demo_collab (to_dict task_A) ?r2 (if True \<or> False then False else True) = Inr ?r2 \<and>
               set_status_answer demo_collab = None \<and>
               (True \<and> delete_original demo_config \<longrightarrow> Some ''/tmp/a.exe'' \<noteq> None)"
    by (simp_all add: demo_collab_def)
  have t: "trace demo_world = []" by (simp add: demo_world_def)
  have o: "py_or (PInt 1) (PInt 0) = PInt 1" by (simp add: py_or_def)
  from process_stage_order[OF refl h2 h3 h4 h5, where cp = None and dbg = False
         and w = demo_world and pl' = demo_collab and tsk' = "Some task_A"]
       h2 h3
  show ?thesis by (simp add: td' t o py_or_def demo_collab_def)
qed

section \<open>The exit status\<close>












subsection \<open>\<open>/proc/meminfo\<close> is only read\<close>

lemma meminfo_emit [simp]: "meminfo (emit e w) = meminfo w" "meminfo (emits es w) = meminfo w"
  by (simp_all add: emit_def emits_def)



















lemma demo_memory_limit:
  "memory_limit (4 / 5) s = (None, emit (SetRlimitAs 1677721 (- 1)) (s\<lparr>rlimit_as := (1677721, - 1)\<rparr>))"
  if "platform_system s = ''Linux''" and "meminfo s = Some [''MemAvailable: 2048 kB'']"
    and "rlimit_as s = (- 1, - 1)" for s :: sched
proof -
  have "get_memory_lines [''MemAvailable: 2048 kB''] = Inr 2048" by code_simp
  with that have g: "get_memory s = Inr 2048" by (simp add: get_memory_def)
  have t: "py_trunc (of_int (2048 * 1024) * (4 / 5)) = 1677721"
    by (simp add: py_trunc_def) linarith
  show ?thesis using that g t by (simp add: memory_limit_def setrlimit_as_def Let_def)
qed



section \<open>Failures of resource queries in \<open>autoprocess\<close>\<close>

text \<open>
  When \<open>/proc/meminfo\<close> cannot be read on a Linux host, \<open>get_memory\<close> raises inside
  \<open>memory_limit\<close>, before the pool exists.  The \<open>except Exception\<close> clause prints the
  traceback, and the \<open>finally\<close> block then reads the unbound name \<open>pool\<close>:
  \<open>autoprocess\<close> ends by raising \<open>UnboundLocalError\<close>, for every configuration, argument
  list and script.
\<close>

lemma autoprocess_unreadable_meminfo:
  assumes "platform_system s = ''Linux''" and "meminfo s = None"
  shows "autoprocess cfg a pool_answer script s =
           (Raised UnboundLocalError, emit (TracebackPrint OSError) (s\<lparr>count := 0\<rparr>))"
  using assms
  by (simp add: autoprocess_def memory_limit_def get_memory_def handlers_def finally_block_def Let_def)

text \<open>An exception that leaves the loop body reaches the handlers with the pool closed and joined.\<close>

lemma autoprocess_loop_raised:
  assumes "fst (memory_limit (4 / 5) (s\<lparr>count := 0\<rparr>)) = None"
    and "while_loop cfg a script (loop_start a s) = (LoopRaised e, rest, s3)"
  shows "autoprocess cfg a None script s = handlers True e (pool_exit rest s3)"
  using assms
  by (cases "memory_limit (4 / 5) (s\<lparr>count := 0\<rparr>)")
     (simp add: autoprocess_def Let_def loop_start_def)

lemma handlers_exception:
  "is_Exception e \<Longrightarrow> e \<noteq> MemoryError \<Longrightarrow>
   handlers True e st = (Returned, emits [PoolClose, PoolJoin] (emit (TracebackPrint e) st))"
  by (cases e) (simp_all add: handlers_def finally_block_def)

text \<open>The installation of the examples, with a \<open>free_space_monitor\<close> that raises in the first pass.\<close>

lemma demo_disk_failure_run:
  "fst (memory_limit (4 / 5) ((init_sched demo_world)\<lparr>count := 0\<rparr>)) = None"
  "while_loop demo_config demo_args
     [Iteration (demo_env\<lparr>space_answer := Inl OSError\<rparr>), Iteration demo_env]
     (loop_start demo_args (init_sched demo_world)) =
   (LoopRaised OSError, [Iteration demo_env],
    emit (FreeSpaceMonitor ''/opt/CAPEv2/storage/analyses'') (loop_start demo_args (init_sched demo_world)))"
  "trace (loop_start demo_args (init_sched demo_world)) =
     [SetRlimitAs 1677721 (- 1), LogInfo ''Processing analysis data'' [], PoolCreate 2 7]"
proof -
  let ?s = "init_sched demo_world"
  let ?env = "demo_env\<lparr>space_answer := Inl OSError\<rparr>"
  have f: "platform_system (?s\<lparr>count := 0\<rparr>) = ''Linux''"
    "meminfo (?s\<lparr>count := 0\<rparr>) = Some [''MemAvailable: 2048 kB'']"
    "rlimit_as (?s\<lparr>count := 0\<rparr>) = (- 1, - 1)"
    by (simp_all add: demo_world_def)
  note ml = demo_memory_limit[OF f]
  show "fst (memory_limit (4 / 5) (?s\<lparr>count := 0\<rparr>)) = None" by (simp add: ml)
  let ?ls = "loop_start demo_args ?s"
  let ?s3 = "emit (FreeSpaceMonitor ''/opt/CAPEv2/storage/analyses'') ?ls"
  have it: "iteration demo_config demo_args ?env ?ls = (Some OSError, ?s3)"
    by (simp add: iteration_def Let_def demo_config_def demo_env_def path_join_def join2_def)
  have c: "count ?ls = 0" by (simp add: loop_start_def ml)
  show "while_loop demo_config demo_args [Iteration ?env, Iteration demo_env] ?ls =
             (LoopRaised OSError, [Iteration demo_env], ?s3)"
    using it c by (simp add: loop_cond_def demo_config_def)
  show "trace ?ls = [SetRlimitAs 1677721 (- 1), LogInfo ''Processing analysis data'' [], PoolCreate 2 7]"
    by (simp add: loop_start_def ml demo_args_def) (simp add: emit_def demo_world_def)
qed

text \<open>
  Claim C7 (resource-query failures never crash the scheduler).  As stated, the claim
  fails twice on the installation of the examples.  With an unreadable \<open>/proc/meminfo\<close>
  the set-up fails and \<open>autoprocess\<close> raises \<open>UnboundLocalError\<close>.  With a
  \<open>free_space_monitor\<close> that raises \<open>OSError\<close> in the first pass, \<open>autoprocess\<close> returns,
  but nothing is downgraded and nothing backs off: the loop is over, no sleep occurs and
  the job store is never asked, although the script holds a second pass.
\<close>

theorem resource_failure_crashes_or_ends_loop:
  "fst (autoprocess demo_config demo_args None [Iteration demo_env]
          (init_sched (demo_world\<lparr>meminfo := None\<rparr>))) = Raised UnboundLocalError \<and>
   fst (autoprocess demo_config demo_args None
          [Iteration (demo_env\<lparr>space_answer := Inl OSError\<rparr>), Iteration demo_env]
          (init_sched demo_world)) = Returned \<and>
   trace (snd (autoprocess demo_config demo_args None
          [Iteration (demo_env\<lparr>space_answer := Inl OSError\<rparr>), Iteration demo_env]
          (init_sched demo_world))) =
     [SetRlimitAs 1677721 (- 1), LogInfo ''Processing analysis data'' [], PoolCreate 2 7,
      FreeSpaceMonitor ''/opt/CAPEv2/storage/analyses'', PoolClose, PoolJoin,
      TracebackPrint OSError, PoolClose, PoolJoin]"
proof -
  have 1: "fst (autoprocess demo_config demo_args None [Iteration demo_env]
          (init_sched (demo_world\<lparr>meminfo := None\<rparr>))) = Raised UnboundLocalError"
    by (simp add: autoprocess_unreadable_meminfo demo_world_def)
  note r = demo_disk_failure_run
  from 1 show ?thesis
    by (simp add: autoprocess_loop_raised[OF r(1) r(2)] handlers_exception pool_exit_def r(3))
qed

text \<open>
  Claim C7, amended.  An \<open>Exception\<close> other than \<open>MemoryError\<close> that a pass of the loop
  raises, such as a failure of \<open>free_space_monitor\<close>, does not end \<open>autoprocess\<close>
  abnormally once the set-up has succeeded: the loop is over (nothing is downgraded,
  nothing is retried), the pool is closed and joined, the traceback is printed, the
  \<open>finally\<close> block closes and joins the pool again, and \<open>autoprocess\<close> returns.
\<close>

theorem loop_body_failure_reaches_shutdown:
  assumes "fst (memory_limit (4 / 5) (s\<lparr>count := 0\<rparr>)) = None"
    and "while_loop cfg a script (loop_start a s) = (LoopRaised e, rest, s3)"
    and "is_Exception e" and "e \<noteq> MemoryError"
  shows "autoprocess cfg a None script s =
           (Returned, emits [PoolClose, PoolJoin] (emit (TracebackPrint e) (pool_exit rest s3))) \<and>
         (freespace cfg \<noteq> 0 \<and> space_answer env = Inl e \<longrightarrow>
            iteration cfg a env s' =
              (Some e, emit (FreeSpaceMonitor (path_join (cuckoo_root cfg) [''storage'', ''analyses''])) s'))"
  using assms
  by (simp add: autoprocess_loop_raised handlers_exception iteration_def Let_def)


theorem loop_body_failure_reaches_shutdown_witness:
  "is_Exception OSError \<and> OSError \<noteq> MemoryError \<and> freespace demo_config \<noteq> 0 \<and>
   fst (while_loop demo_config demo_args
          [Iteration (demo_env\<lparr>space_answer := Inl OSError\<rparr>), Iteration demo_env]
          (loop_start demo_args (init_sched demo_world))) = LoopRaised OSError \<and>
   fst (autoprocess demo_config demo_args None
          [Iteration (demo_env\<lparr>space_answer := Inl OSError\<rparr>), Iteration demo_env]
          (init_sched demo_world)) = Returned \<and>
   fst (iteration demo_config demo_args (demo_env\<lparr>space_answer := Inl OSError\<rparr>) busy_state) = Some OSError"
proof -
  note r = demo_disk_failure_run
  have h3: "is_Exception OSError" and h4: "OSError \<noteq> MemoryError" by simp_all
  have h5: "freespace demo_config \<noteq> 0 \<and> space_answer (demo_env\<lparr>space_answer := Inl OSError\<rparr>) = Inl OSError"
    by (simp add: demo_config_def)
  from loop_body_failure_reaches_shutdown[OF r(1) r(2) h3 h4,
         where env = "demo_env\<lparr>space_answer := Inl OSError\<rparr>" and s' = busy_state] h5 r(2)
  show ?thesis by simp
qed

end
